theory Spec2Isabelle
  imports Complex_Main
begin

section \<open>Constants of game.py\<close>

definition SCREEN_W :: int where "SCREEN_W = 800"
definition SCREEN_H :: int where "SCREEN_H = 600"
definition GRAVITY :: real where "GRAVITY = 0.6"
definition JUMP_FORCE :: real where "JUMP_FORCE = - 14"
definition PLAYER_SPEED :: real where "PLAYER_SPEED = 4"

section \<open>Numbers\<close>

text \<open>
  Velocities are Python floats in the source. They are modelled as reals: the game only
  ever stores \<open>\<plusminus>4\<close>, multiples by \<open>0.75\<close>, \<open>-14\<close>, sums with \<open>0.6\<close>, \<open>20\<close>
  and \<open>0\<close> in them. A sum of binary floats can fall just below the exact sum, so a
  position computed over several ticks of free fall may differ by a pixel between the two;
  none of the properties below depends on such a position.
  Rectangle coordinates, health, score and timers are Python integers.
\<close>

definition py_int :: "real \<Rightarrow> int" where
  \<comment> \<open>Python's \<open>int(v)\<close> on a float: truncation towards zero.\<close>
  "py_int v = (if 0 \<le> v then \<lfloor>v\<rfloor> else \<lceil>v\<rceil>)"

definition half :: "int \<Rightarrow> int" where
  \<comment> \<open>The C expression \<open>h / 2\<close> that pygame uses for a rectangle's centre.\<close>
  "half h = (if 0 \<le> h then h div 2 else - ((- h) div 2))"

definition rotate_y :: "real \<Rightarrow> real" where
  \<comment> \<open>\<open>pygame.math.Vector2(0, 1).rotate(deg).y\<close>: the vector (0, 1) turned by
      \<open>deg\<close> degrees has the y coordinate \<open>cos deg\<close>.\<close>
  "rotate_y deg = cos (deg * pi / 180)"

section \<open>pygame.Rect\<close>

record rect =
  rect_x :: int
  rect_y :: int
  rect_w :: int
  rect_h :: int

definition rect_left :: "rect \<Rightarrow> int" where "rect_left r = rect_x r"
definition rect_top :: "rect \<Rightarrow> int" where "rect_top r = rect_y r"
definition rect_right :: "rect \<Rightarrow> int" where "rect_right r = rect_x r + rect_w r"
definition rect_bottom :: "rect \<Rightarrow> int" where "rect_bottom r = rect_y r + rect_h r"
definition rect_centerx :: "rect \<Rightarrow> int" where "rect_centerx r = rect_x r + half (rect_w r)"
definition rect_centery :: "rect \<Rightarrow> int" where "rect_centery r = rect_y r + half (rect_h r)"

definition set_left :: "int \<Rightarrow> rect \<Rightarrow> rect" where
  "set_left v r = r\<lparr>rect_x := v\<rparr>"
definition set_top :: "int \<Rightarrow> rect \<Rightarrow> rect" where
  "set_top v r = r\<lparr>rect_y := v\<rparr>"
definition set_right :: "int \<Rightarrow> rect \<Rightarrow> rect" where
  "set_right v r = r\<lparr>rect_x := v - rect_w r\<rparr>"
definition set_bottom :: "int \<Rightarrow> rect \<Rightarrow> rect" where
  "set_bottom v r = r\<lparr>rect_y := v - rect_h r\<rparr>"
definition set_centery :: "int \<Rightarrow> rect \<Rightarrow> rect" where
  "set_centery v r = r\<lparr>rect_y := v - half (rect_h r)\<rparr>"

definition move_x :: "int \<Rightarrow> rect \<Rightarrow> rect" where
  \<comment> \<open>\<open>rect.x += d\<close>\<close>
  "move_x d r = r\<lparr>rect_x := rect_x r + d\<rparr>"
definition move_y :: "int \<Rightarrow> rect \<Rightarrow> rect" where
  \<comment> \<open>\<open>rect.y += d\<close>\<close>
  "move_y d r = r\<lparr>rect_y := rect_y r + d\<rparr>"

definition rect_topleft :: "int \<Rightarrow> int \<Rightarrow> int \<Rightarrow> int \<Rightarrow> rect" where
  \<comment> \<open>\<open>Surface((w, h)).get_rect(topleft=(x, y))\<close>\<close>
  "rect_topleft x y w h = \<lparr>rect_x = x, rect_y = y, rect_w = w, rect_h = h\<rparr>"
definition rect_center :: "int \<Rightarrow> int \<Rightarrow> int \<Rightarrow> int \<Rightarrow> rect" where
  \<comment> \<open>\<open>Surface((w, h)).get_rect(center=(cx, cy))\<close>\<close>
  "rect_center cx cy w h = \<lparr>rect_x = cx - half w, rect_y = cy - half h, rect_w = w, rect_h = h\<rparr>"

definition colliderect :: "rect \<Rightarrow> rect \<Rightarrow> bool" where
  \<comment> \<open>pygame's \<open>Rect.colliderect\<close>: strict overlap of the two areas; a rectangle of
      width or height 0 collides with nothing.\<close>
  "colliderect a b =
     (if rect_w a = 0 \<or> rect_h a = 0 \<or> rect_w b = 0 \<or> rect_h b = 0 then False
      else min (rect_x a) (rect_x a + rect_w a) < max (rect_x b) (rect_x b + rect_w b)
         \<and> min (rect_y a) (rect_y a + rect_h a) < max (rect_y b) (rect_y b + rect_h b)
         \<and> max (rect_x a) (rect_x a + rect_w a) > min (rect_x b) (rect_x b + rect_w b)
         \<and> max (rect_y a) (rect_y a + rect_h a) > min (rect_y b) (rect_y b + rect_h b))"

section \<open>Platform, Coin, Enemy\<close>

record platform =
  plat_rect :: rect

definition Platform_init :: "int \<Rightarrow> int \<Rightarrow> int \<Rightarrow> int \<Rightarrow> platform" where
  \<comment> \<open>\<open>pygame.Surface((w, h))\<close> raises for a negative width or height; every platform of
      \<open>build_level\<close> and every platform used below has positive sizes.\<close>
  "Platform_init x y w h = \<lparr>plat_rect = rect_topleft x y w h\<rparr>"

record coin =
  coin_rect :: rect
  bob_timer :: int

definition Coin_init :: "int \<Rightarrow> int \<Rightarrow> int \<Rightarrow> coin" where
  \<comment> \<open>The third argument is the value drawn by \<open>random.randint(0, 60)\<close>.\<close>
  "Coin_init x y r = \<lparr>coin_rect = rect_center x y 20 20, bob_timer = r\<rparr>"

definition Coin_update :: "coin \<Rightarrow> coin" where
  "Coin_update c =
     (let t = bob_timer c + 1;
          offset = py_int (3 * rotate_y (of_int (t * 6)))
      in c\<lparr>bob_timer := t,
           coin_rect := set_centery (rect_centery (coin_rect c) + offset div 6) (coin_rect c)\<rparr>)"

record enemy =
  enemy_rect :: rect
  e_vel_x :: int
  patrol_min :: int
  patrol_max :: int

definition Enemy_init :: "int \<Rightarrow> int \<Rightarrow> int \<Rightarrow> int \<Rightarrow> enemy" where
  "Enemy_init x y pmin pmax =
     \<lparr>enemy_rect = rect_topleft x y 36 42, e_vel_x = 2, patrol_min = pmin, patrol_max = pmax\<rparr>"

datatype construction_error = TypeError

definition c_int_range :: "int \<Rightarrow> bool" where
  \<comment> \<open>The values that fit the C \<open>int\<close> fields of a \<open>pygame.Rect\<close>.\<close>
  "c_int_range v = (- 2147483648 \<le> v \<and> v \<le> 2147483647)"

definition Enemy_new :: "int \<Rightarrow> int \<Rightarrow> int \<Rightarrow> int \<Rightarrow> construction_error + enemy" where
  \<comment> \<open>The call \<open>Enemy(x, y, patrol_min, patrol_max)\<close> as a fallible operation.
      \<open>Enemy.__init__\<close> has no \<open>raise\<close> of its own and no check of its arguments; its only
      error path is pygame's: \<open>self.image.get_rect(topleft=(x, y))\<close> raises \<open>TypeError\<close>
      when \<open>x\<close> or \<open>y\<close> does not fit a C \<open>int\<close>. The two patrol bounds are stored as
      Python integers, whatever they are.\<close>
  "Enemy_new x y pmin pmax =
     (if c_int_range x \<and> c_int_range y then Inr (Enemy_init x y pmin pmax) else Inl TypeError)"

definition spritecollideany :: "rect \<Rightarrow> platform list \<Rightarrow> platform option" where
  \<comment> \<open>\<open>pygame.sprite.spritecollideany(self, platforms)\<close>: the first platform of the
      group, in iteration order, whose rectangle collides.\<close>
  "spritecollideany r platforms = find (\<lambda>q. colliderect r (plat_rect q)) platforms"

definition Enemy_update :: "platform list \<Rightarrow> enemy \<Rightarrow> enemy" where
  "Enemy_update platforms e =
     (let r1 = move_x (e_vel_x e) (enemy_rect e);
          bounce = (rect_left r1 \<le> patrol_min e \<or> rect_right r1 \<ge> patrol_max e);
          v = (if bounce then e_vel_x e * (- 1) else e_vel_x e);
          r2 = (if bounce then move_x (v * 2) r1 else r1);
          r3 = move_y 1 r2;
          r4 = (case spritecollideany r3 platforms of
                  Some hit \<Rightarrow> set_bottom (rect_top (plat_rect hit)) r3
                | None \<Rightarrow> move_y (- 1) r3)
      in e\<lparr>enemy_rect := r4, e_vel_x := v\<rparr>)"

section \<open>Player\<close>

datatype key = K_LEFT | K_RIGHT | K_a | K_d | K_SPACE | K_UP | K_RETURN | K_ESCAPE

type_synonym keys = "key \<Rightarrow> bool"

record player =
  p_rect :: rect
  vel_x :: real
  vel_y :: real
  on_ground :: bool
  max_health :: int
  health :: int
  score :: int
  invincible_timer :: int
  facing_right :: bool
  walk_frame :: int

definition Player_init :: "int \<Rightarrow> int \<Rightarrow> player" where
  "Player_init x y =
     \<lparr>p_rect = rect_topleft x y 32 48, vel_x = 0, vel_y = 0, on_ground = False,
      max_health = 100, health = 100, score = 0, invincible_timer = 0,
      facing_right = True, walk_frame = 0\<rparr>"

definition handle_input :: "keys \<Rightarrow> player \<Rightarrow> player" where
  "handle_input ks p =
     (let (p1, moving) =
            (if ks K_LEFT \<or> ks K_a
               then (p\<lparr>vel_x := - PLAYER_SPEED, facing_right := False\<rparr>, True)
             else if ks K_RIGHT \<or> ks K_d
               then (p\<lparr>vel_x := PLAYER_SPEED, facing_right := True\<rparr>, True)
             else (let v = vel_x p * 0.75
                   in (p\<lparr>vel_x := (if \<bar>v\<bar> < 0.5 then 0 else v)\<rparr>, False)));
          p2 = (if (ks K_SPACE \<or> ks K_UP) \<and> on_ground p1
                  then p1\<lparr>vel_y := JUMP_FORCE, on_ground := False\<rparr> else p1)
      in if moving \<and> on_ground p2 then p2\<lparr>walk_frame := walk_frame p2 + 1\<rparr> else p2)"

definition apply_gravity :: "player \<Rightarrow> player" where
  "apply_gravity p =
     (let v = vel_y p + GRAVITY in p\<lparr>vel_y := (if v > 20 then 20 else v)\<rparr>)"

definition collide_x :: "platform \<Rightarrow> player \<Rightarrow> player" where
  \<comment> \<open>The body of the horizontal \<open>for plat in platforms\<close> loop.\<close>
  "collide_x plat p =
     (if colliderect (p_rect p) (plat_rect plat)
        then p\<lparr>p_rect := (if vel_x p > 0 then set_right (rect_left (plat_rect plat)) (p_rect p)
                          else if vel_x p < 0 then set_left (rect_right (plat_rect plat)) (p_rect p)
                          else p_rect p),
               vel_x := 0\<rparr>
      else p)"

definition collide_y :: "platform \<Rightarrow> player \<Rightarrow> player" where
  \<comment> \<open>The body of the vertical \<open>for plat in platforms\<close> loop.\<close>
  "collide_y plat p =
     (if colliderect (p_rect p) (plat_rect plat)
        then (if vel_y p > 0
                then p\<lparr>p_rect := set_bottom (rect_top (plat_rect plat)) (p_rect p),
                       vel_y := 0, on_ground := True\<rparr>
              else if vel_y p < 0
                then p\<lparr>p_rect := set_top (rect_bottom (plat_rect plat)) (p_rect p), vel_y := 0\<rparr>
              else p)
      else p)"

definition move_horizontal :: "platform list \<Rightarrow> player \<Rightarrow> player" where
  \<comment> \<open>The first half of \<open>move_and_collide\<close>.\<close>
  "move_horizontal platforms p =
     fold collide_x platforms (p\<lparr>p_rect := move_x (py_int (vel_x p)) (p_rect p)\<rparr>)"

definition move_vertical :: "platform list \<Rightarrow> player \<Rightarrow> player" where
  \<comment> \<open>The second half of \<open>move_and_collide\<close>.\<close>
  "move_vertical platforms p =
     fold collide_y platforms
       (p\<lparr>on_ground := False, p_rect := move_y (py_int (vel_y p)) (p_rect p)\<rparr>)"

definition move_and_collide :: "platform list \<Rightarrow> player \<Rightarrow> player" where
  "move_and_collide platforms p = move_vertical platforms (move_horizontal platforms p)"

definition take_damage :: "int \<Rightarrow> player \<Rightarrow> player" where
  "take_damage amount p =
     (if invincible_timer p > 0 then p
      else (let h = health p - amount
            in p\<lparr>health := (if h < 0 then 0 else h), invincible_timer := 90\<rparr>))"

definition clamp_to_screen :: "player \<Rightarrow> player" where
  \<comment> \<open>The last two statements of \<open>Player.update\<close>.\<close>
  "clamp_to_screen p =
     (let p1 = (if rect_left (p_rect p) < 0 then p\<lparr>p_rect := set_left 0 (p_rect p)\<rparr> else p)
      in if rect_right (p_rect p1) > SCREEN_W
           then p1\<lparr>p_rect := set_right SCREEN_W (p_rect p1)\<rparr> else p1)"

definition Player_update :: "keys \<Rightarrow> platform list \<Rightarrow> player \<Rightarrow> player" where
  "Player_update ks platforms p =
     (let p1 = move_and_collide platforms (apply_gravity (handle_input ks p));
          p2 = (if invincible_timer p1 > 0
                  then p1\<lparr>invincible_timer := invincible_timer p1 - 1\<rparr> else p1)
      in clamp_to_screen p2)"

definition is_dead :: "player \<Rightarrow> bool" where
  "is_dead p = (health p \<le> 0)"

section \<open>Level builder\<close>

definition plat_data :: "(int \<times> int \<times> int \<times> int) list" where
  "plat_data =
     [(100, 460, 140, 18), (280, 380, 120, 18), (430, 460, 110, 18), (570, 350, 130, 18),
      (680, 430, 100, 18), (200, 280, 100, 18), (350, 210, 120, 18), (520, 260, 90, 18),
      (620, 170, 110, 18), (0, 300, 80, 18)]"

definition coin_positions :: "(int \<times> int) list" where
  "coin_positions =
     [(170, 435), (310, 355), (490, 435), (620, 320), (740, 405), (250, 255), (410, 185),
      (570, 235), (670, 145), (40, 275), (400, 535), (600, 535), (200, 535)]"

definition enemy_data :: "(int \<times> int \<times> int \<times> int) list" where
  "enemy_data =
     [(110, 518, 50, 260), (400, 518, 300, 700), (283, 338, 280, 400), (571, 308, 570, 700),
      (203, 238, 200, 300)]"

fun make_coins :: "(nat \<Rightarrow> int) \<Rightarrow> nat \<Rightarrow> (int \<times> int) list \<Rightarrow> coin list" where
  \<comment> \<open>The loop \<open>for cx, cy in coin_positions: coins.add(Coin(cx, cy))\<close>; \<open>rnd i\<close> is the
      value that \<open>random.randint(0, 60)\<close> returns for the coin number \<open>i\<close>.\<close>
  "make_coins rnd i [] = []"
| "make_coins rnd i ((cx, cy) # ps) = Coin_init cx cy (rnd i) # make_coins rnd (Suc i) ps"

record level =
  l_player :: player
  l_platforms :: "platform list"
  l_coins :: "coin list"
  l_enemies :: "enemy list"

definition build_level :: "(nat \<Rightarrow> int) \<Rightarrow> level" where
  "build_level rnd =
     \<lparr>l_player = Player_init 60 490,
      l_platforms = Platform_init 0 560 800 40
                    # map (\<lambda>(x, y, w, h). Platform_init x y w h) plat_data,
      l_coins = make_coins rnd 0 coin_positions,
      l_enemies = map (\<lambda>(ex, ey, pmin, pmax). Enemy_init ex ey pmin pmax) enemy_data\<rparr>"

section \<open>Main loop\<close>

datatype phase = Start | Playing | GameOver | Win

record game =
  g_state :: phase
  g_player :: player
  g_platforms :: "platform list"
  g_coins :: "coin list"
  g_enemies :: "enemy list"
  total_coins :: int

definition load_level :: "phase \<Rightarrow> level \<Rightarrow> game" where
  \<comment> \<open>\<open>player, platforms, coins, enemies = build_level(); total_coins = len(coins)\<close>\<close>
  "load_level s l =
     \<lparr>g_state = s, g_player = l_player l, g_platforms = l_platforms l, g_coins = l_coins l,
      g_enemies = l_enemies l, total_coins = int (length (l_coins l))\<rparr>"

definition main_init :: "(nat \<Rightarrow> int) \<Rightarrow> game" where
  \<comment> \<open>The state of \<open>main\<close> when it enters \<open>while True\<close>.\<close>
  "main_init rnd = load_level Start (build_level rnd)"

datatype event = QUIT | KEYDOWN key | OtherEvent

fun handle_events :: "(nat \<Rightarrow> int) \<Rightarrow> event list \<Rightarrow> game \<Rightarrow> game option" where
  \<comment> \<open>The event loop of one frame; \<open>None\<close> is \<open>pygame.quit(); sys.exit()\<close>.\<close>
  "handle_events rnd [] g = Some g"
| "handle_events rnd (QUIT # es) g = None"
| "handle_events rnd (KEYDOWN k # es) g =
     (if k = K_ESCAPE then None
      else if k = K_RETURN \<and> (g_state g = Start \<or> g_state g = GameOver \<or> g_state g = Win)
        then handle_events rnd es (load_level Playing (build_level rnd))
      else handle_events rnd es g)"
| "handle_events rnd (OtherEvent # es) g = handle_events rnd es g"

definition step_entities :: "keys \<Rightarrow> game \<Rightarrow> game" where
  \<comment> \<open>\<open>player.update(keys, platforms); enemies.update(platforms); coins.update()\<close>\<close>
  "step_entities ks g =
     g\<lparr>g_player := Player_update ks (g_platforms g) (g_player g),
       g_enemies := map (Enemy_update (g_platforms g)) (g_enemies g),
       g_coins := map Coin_update (g_coins g)\<rparr>"

definition step_collect :: "game \<Rightarrow> game" where
  \<comment> \<open>\<open>collected = spritecollide(player, coins, True); player.score += len(collected) * 10\<close>\<close>
  "step_collect g =
     (let hit = (\<lambda>c. colliderect (p_rect (g_player g)) (coin_rect c));
          collected = filter hit (g_coins g)
      in g\<lparr>g_coins := filter (\<lambda>c. \<not> hit c) (g_coins g),
           g_player := (g_player g)\<lparr>score := score (g_player g) + int (length collected) * 10\<rparr>\<rparr>)"

definition step_win :: "game \<Rightarrow> game" where
  "step_win g = (if length (g_coins g) = 0 then g\<lparr>g_state := Win\<rparr> else g)"

definition step_enemy_hit :: "game \<Rightarrow> game" where
  \<comment> \<open>\<open>if pygame.sprite.spritecollideany(player, enemies): player.take_damage(20)\<close>\<close>
  "step_enemy_hit g =
     (if find (\<lambda>e. colliderect (p_rect (g_player g)) (enemy_rect e)) (g_enemies g) \<noteq> None
        then g\<lparr>g_player := take_damage 20 (g_player g)\<rparr> else g)"

definition fall_off_screen :: "player \<Rightarrow> player" where
  \<comment> \<open>\<open>if player.rect.top > SCREEN_H + 50: player.health = 0\<close>\<close>
  "fall_off_screen p = (if rect_top (p_rect p) > SCREEN_H + 50 then p\<lparr>health := 0\<rparr> else p)"

definition step_fall :: "game \<Rightarrow> game" where
  "step_fall g = g\<lparr>g_player := fall_off_screen (g_player g)\<rparr>"

definition step_dead :: "game \<Rightarrow> game" where
  "step_dead g = (if is_dead (g_player g) then g\<lparr>g_state := GameOver\<rparr> else g)"

definition update_playing :: "keys \<Rightarrow> game \<Rightarrow> game" where
  \<comment> \<open>The body of \<open>if state == "playing":\<close>.\<close>
  "update_playing ks g =
     step_dead (step_fall (step_enemy_hit (step_win (step_collect (step_entities ks g)))))"

record frame_input =
  in_keys :: keys
  in_events :: "event list"
  in_rnd :: "nat \<Rightarrow> int"

definition main_iter :: "frame_input \<Rightarrow> game \<Rightarrow> game option" where
  \<comment> \<open>One pass of \<open>while True\<close>, drawing left out (it changes no state).\<close>
  "main_iter inp g =
     (case handle_events (in_rnd inp) (in_events inp) g of
        None \<Rightarrow> None
      | Some g1 \<Rightarrow> Some (if g_state g1 = Playing then update_playing (in_keys inp) g1 else g1))"

fun run :: "frame_input list \<Rightarrow> game \<Rightarrow> game option" where
  \<comment> \<open>The loop over a sequence of frames; \<open>None\<close> once the process has exited.\<close>
  "run [] g = Some g"
| "run (inp # inps) g = (case main_iter inp g of None \<Rightarrow> None | Some g1 \<Rightarrow> run inps g1)"

definition coin_info :: "game \<Rightarrow> int \<times> int" where
  \<comment> \<open>The two numbers of \<open>f"Coins: {total_coins - len(coins)}/{total_coins}"\<close>.\<close>
  "coin_info g = (total_coins g - int (length (g_coins g)), total_coins g)"

section \<open>Derived notions and concrete inputs\<close>

definition Player_updates :: "keys list \<Rightarrow> platform list \<Rightarrow> player \<Rightarrow> player" where
  \<comment> \<open>\<open>Player.update\<close> called once per tick, with the keys of each tick.\<close>
  "Player_updates kss platforms p = fold (\<lambda>ks. Player_update ks platforms) kss p"

definition health_ok :: "player \<Rightarrow> bool" where
  "health_ok p = (0 \<le> health p \<and> health p \<le> max_health p \<and> max_health p = 100)"

definition no_keys :: keys where
  "no_keys k = False"

definition both_held :: keys where
  \<comment> \<open>The left and the right arrow key held together, nothing else.\<close>
  "both_held k = (k = K_LEFT \<or> k = K_RIGHT)"

definition score_ok :: "game \<Rightarrow> bool" where
  "score_ok g = (int (length (g_coins g)) \<le> total_coins g
     \<and> score (g_player g) = 10 * (total_coins g - int (length (g_coins g))))"

definition last_coin_game :: "int \<Rightarrow> game" where
  "last_coin_game hp =
     \<lparr>g_state = Playing, g_player = (Player_init 60 512)\<lparr>health := hp, score := 120\<rparr>,
      g_platforms = [Platform_init 0 560 800 40], g_coins = [Coin_init 76 536 59],
      g_enemies = [Enemy_init 70 518 50 260], total_coins = 13\<rparr>"

definition zero_rnd :: "nat \<Rightarrow> int" where
  \<comment> \<open>Every call of \<open>random.randint(0, 60)\<close> returns 0.\<close>
  "zero_rnd i = 0"

definition start_frame :: frame_input where
  "start_frame = \<lparr>in_keys = no_keys, in_events = [KEYDOWN K_RETURN], in_rnd = zero_rnd\<rparr>"

definition first_tick :: game where
  "first_tick = update_playing no_keys (load_level Playing (build_level zero_rnd))"

definition bob_step :: "int \<Rightarrow> int" where
  "bob_step t = py_int (3 * rotate_y (of_int (t * 6))) div 6"

definition patrol_ok :: "enemy \<Rightarrow> bool" where
  "patrol_ok e =
     ((e_vel_x e = 2 \<or> e_vel_x e = - 2) \<and> rect_w (enemy_rect e) = 36
      \<and> patrol_min e < rect_left (enemy_rect e) \<and> rect_right (enemy_rect e) < patrol_max e
      \<and> patrol_min e + 40 < patrol_max e)"

definition center_in_range :: "enemy \<Rightarrow> bool" where
  "center_in_range e =
     (patrol_min e \<le> rect_centerx (enemy_rect e) \<and> rect_centerx (enemy_rect e) \<le> patrol_max e)"

definition positive_size :: "rect \<Rightarrow> bool" where
  "positive_size r = (0 < rect_w r \<and> 0 < rect_h r)"

definition first_hit_x :: "platform list \<Rightarrow> player \<Rightarrow> platform option" where
  "first_hit_x platforms p = spritecollideany (move_x (py_int (vel_x p)) (p_rect p)) platforms"

definition first_hit_y :: "platform list \<Rightarrow> player \<Rightarrow> platform option" where
  "first_hit_y platforms p = spritecollideany (move_y (py_int (vel_y p)) (p_rect p)) platforms"

definition stair_low :: platform where "stair_low = Platform_init 50 110 50 18"

definition stair_high :: platform where "stair_high = Platform_init 0 100 50 18"

definition faller :: player where "faller = (Player_init 30 51)\<lparr>vel_y := 20\<rparr>"

definition wall :: platform where "wall = Platform_init 34 0 10 100"

definition runner :: player where "runner = (Player_init 0 0)\<lparr>vel_x := 4\<rparr>"

section \<open>Fields that the movement code leaves alone\<close>

lemma td_noop: "0 < invincible_timer p \<Longrightarrow> take_damage a p = p"
  by (simp add: take_damage_def)

lemma handle_input_keeps:
  "invincible_timer (handle_input ks p) = invincible_timer p"
  "health (handle_input ks p) = health p"
  "max_health (handle_input ks p) = max_health p"
  "score (handle_input ks p) = score p"
  by (simp_all add: handle_input_def Let_def split: prod.splits)

lemma apply_gravity_keeps:
  "invincible_timer (apply_gravity p) = invincible_timer p"
  "health (apply_gravity p) = health p"
  "max_health (apply_gravity p) = max_health p"
  "score (apply_gravity p) = score p"
  by (simp_all add: apply_gravity_def Let_def)

lemma collide_x_keeps:
  "invincible_timer (collide_x q p) = invincible_timer p"
  "health (collide_x q p) = health p"
  "max_health (collide_x q p) = max_health p"
  "score (collide_x q p) = score p"
  by (simp_all add: collide_x_def)

lemma collide_y_keeps:
  "invincible_timer (collide_y q p) = invincible_timer p"
  "health (collide_y q p) = health p"
  "max_health (collide_y q p) = max_health p"
  "score (collide_y q p) = score p"
  by (simp_all add: collide_y_def)

lemma fold_collide_x_keeps:
  "invincible_timer (fold collide_x qs p) = invincible_timer p
   \<and> health (fold collide_x qs p) = health p
   \<and> max_health (fold collide_x qs p) = max_health p
   \<and> score (fold collide_x qs p) = score p"
  by (induction qs arbitrary: p) (simp_all add: collide_x_keeps)

lemma fold_collide_y_keeps:
  "invincible_timer (fold collide_y qs p) = invincible_timer p
   \<and> health (fold collide_y qs p) = health p
   \<and> max_health (fold collide_y qs p) = max_health p
   \<and> score (fold collide_y qs p) = score p"
  by (induction qs arbitrary: p) (simp_all add: collide_y_keeps)

lemma move_and_collide_keeps:
  "invincible_timer (move_and_collide qs p) = invincible_timer p"
  "health (move_and_collide qs p) = health p"
  "max_health (move_and_collide qs p) = max_health p"
  "score (move_and_collide qs p) = score p"
  by (simp_all add: move_and_collide_def move_vertical_def move_horizontal_def
        fold_collide_x_keeps fold_collide_y_keeps)

lemma clamp_to_screen_keeps:
  "invincible_timer (clamp_to_screen p) = invincible_timer p"
  "health (clamp_to_screen p) = health p"
  "max_health (clamp_to_screen p) = max_health p"
  "score (clamp_to_screen p) = score p"
  by (simp_all add: clamp_to_screen_def Let_def)

lemma Player_update_keeps:
  "health (Player_update ks qs p) = health p"
  "max_health (Player_update ks qs p) = max_health p"
  "score (Player_update ks qs p) = score p"
  "invincible_timer (Player_update ks qs p)
     = (if 0 < invincible_timer p then invincible_timer p - 1 else invincible_timer p)"
  by (simp_all add: Player_update_def Let_def clamp_to_screen_keeps move_and_collide_keeps
        apply_gravity_keeps handle_input_keeps)

lemma Player_updates_health: "health (Player_updates kss qs p) = health p"
  unfolding Player_updates_def by (induction kss arbitrary: p) (simp_all add: Player_update_keeps)

lemma Player_updates_timer_idle:
  "invincible_timer p \<le> 0 \<Longrightarrow> invincible_timer (Player_updates kss qs p) = invincible_timer p"
  unfolding Player_updates_def by (induction kss arbitrary: p) (simp_all add: Player_update_keeps)

lemma Player_updates_timer:
  "0 < invincible_timer p \<Longrightarrow>
   invincible_timer (Player_updates kss qs p) = max 0 (invincible_timer p - int (length kss))"
proof (induction kss arbitrary: p)
  case Nil
  then show ?case by (simp add: Player_updates_def)
next
  case (Cons ks kss)
  let ?p1 = "Player_update ks qs p"
  have step: "Player_updates (ks # kss) qs p = Player_updates kss qs ?p1"
    by (simp add: Player_updates_def)
  have t1: "invincible_timer ?p1 = invincible_timer p - 1"
    using Cons.prems by (simp add: Player_update_keeps)
  show ?case
  proof (cases "0 < invincible_timer ?p1")
    case True
    then show ?thesis using Cons.IH [of ?p1] t1 step by simp
  next
    case False
    then have "invincible_timer (Player_updates kss qs ?p1) = invincible_timer ?p1"
      by (simp add: Player_updates_timer_idle)
    then show ?thesis using False t1 step Cons.prems by simp
  qed
qed

lemma second_hit_in_window:
  assumes "invincible_timer p \<le> 0" and "length kss < 90"
  shows "health (take_damage b (Player_updates kss qs (take_damage a p)))
           = health (take_damage a p)"
proof -
  have t: "invincible_timer (take_damage a p) = 90"
    using assms(1) by (simp add: take_damage_def Let_def)
  have "invincible_timer (Player_updates kss qs (take_damage a p)) = max 0 (90 - int (length kss))"
    using Player_updates_timer [of "take_damage a p" kss qs] t by simp
  then have "0 < invincible_timer (Player_updates kss qs (take_damage a p))"
    using assms(2) by simp
  then show ?thesis by (simp add: td_noop Player_updates_health)
qed

section \<open>C1: left and right held together\<close>

text \<open>
  C1 as the spec states it: with left and right held in the same tick, the horizontal
  velocity becomes \<open>+PLAYER_SPEED\<close>. \<open>handle_input\<close> tests the left keys first and
  reaches the right keys only in the \<open>elif\<close>, so the claim fails: with both arrow keys down
  a freshly built player gets \<open>-PLAYER_SPEED\<close>.
\<close>

theorem handle_input_both_held_counterexample:
  "both_held K_LEFT \<and> both_held K_RIGHT
   \<and> vel_x (handle_input both_held (Player_init 60 490)) = - PLAYER_SPEED
   \<and> vel_x (handle_input both_held (Player_init 60 490)) \<noteq> PLAYER_SPEED"
  by (simp add: handle_input_def both_held_def Player_init_def PLAYER_SPEED_def)

text \<open>
  C1, amended: whenever a left key (left arrow or A) is held, also together with a right
  key, \<open>handle_input\<close> sets the horizontal velocity to \<open>-PLAYER_SPEED\<close> and the player
  faces left; a right key (right arrow or D) gives \<open>+PLAYER_SPEED\<close> only when no left key
  is held. This holds for every key state and every player state.
\<close>

theorem handle_input_left_priority:
  "(ks K_LEFT \<or> ks K_a \<longrightarrow>
      vel_x (handle_input ks p) = - PLAYER_SPEED \<and> \<not> facing_right (handle_input ks p))
   \<and> (\<not> (ks K_LEFT \<or> ks K_a) \<and> (ks K_RIGHT \<or> ks K_d) \<longrightarrow>
      vel_x (handle_input ks p) = PLAYER_SPEED \<and> facing_right (handle_input ks p))"
  by (simp add: handle_input_def Let_def)

theorem handle_input_left_priority_witness:
  "(both_held K_LEFT \<or> both_held K_a) \<and> (both_held K_RIGHT \<or> both_held K_d)
   \<and> vel_x (handle_input both_held (Player_init 60 490)) = - PLAYER_SPEED
   \<and> \<not> (no_keys K_LEFT \<or> no_keys K_a)
   \<and> ((no_keys(K_d := True)) K_RIGHT \<or> (no_keys(K_d := True)) K_d)
   \<and> vel_x (handle_input (no_keys(K_d := True)) (Player_init 60 490)) = PLAYER_SPEED"
  using handle_input_left_priority [of both_held "Player_init 60 490"]
    handle_input_left_priority [of "no_keys(K_d := True)" "Player_init 60 490"]
  by (simp add: both_held_def no_keys_def)

section \<open>C4: damage inside the invincibility window\<close>

text \<open>
  C4: while \<open>invincible_timer > 0\<close>, \<open>take_damage\<close> returns the player unchanged. A hit
  that lands (timer not positive) opens a window of 90 ticks, and a second \<open>take_damage\<close>
  after fewer than 90 calls of \<open>Player.update\<close> leaves the health where the first hit put
  it. The scenario of the spec: health 100 and timer 0, a hit of 20 gives health 80 and
  timer 90, and a second hit 10 ticks later leaves health at 80.
\<close>

theorem take_damage_idempotent_in_window:
  "(0 < invincible_timer p \<longrightarrow> take_damage amount p = p)
   \<and> (invincible_timer p \<le> 0 \<and> length kss < 90 \<longrightarrow>
        health (take_damage amount2 (Player_updates kss platforms (take_damage amount p)))
          = health (take_damage amount p))
   \<and> (health p = 100 \<and> invincible_timer p = 0 \<longrightarrow>
        health (take_damage 20 p) = 80 \<and> invincible_timer (take_damage 20 p) = 90
        \<and> (length kss = 10 \<longrightarrow>
             health (take_damage 20 (Player_updates kss platforms (take_damage 20 p))) = 80))"
proof (intro conjI impI)
  show "take_damage amount p = p" if "0 < invincible_timer p"
    using that by (rule td_noop)
next
  show "health (take_damage amount2 (Player_updates kss platforms (take_damage amount p)))
          = health (take_damage amount p)" if "invincible_timer p \<le> 0 \<and> length kss < 90"
    using that second_hit_in_window by simp
next
  assume a: "health p = 100 \<and> invincible_timer p = 0"
  then show h: "health (take_damage 20 p) = 80"
    by (simp add: take_damage_def Let_def)
  show "invincible_timer (take_damage 20 p) = 90"
    using a by (simp add: take_damage_def Let_def)
  show "health (take_damage 20 (Player_updates kss platforms (take_damage 20 p))) = 80"
    if "length kss = 10"
    using that a h second_hit_in_window [of p kss 20 platforms 20] by simp
qed

theorem take_damage_idempotent_in_window_witness:
  "0 < invincible_timer (take_damage 20 (Player_init 60 490))
   \<and> take_damage 20 (take_damage 20 (Player_init 60 490)) = take_damage 20 (Player_init 60 490)
   \<and> health (Player_init 60 490) = 100 \<and> invincible_timer (Player_init 60 490) = 0
   \<and> length (replicate 10 no_keys) = 10
   \<and> health (take_damage 20 (Player_init 60 490)) = 80
   \<and> invincible_timer (take_damage 20 (Player_init 60 490)) = 90
   \<and> health (take_damage 20 (Player_updates (replicate 10 no_keys) []
               (take_damage 20 (Player_init 60 490)))) = 80"
proof -
  have i: "health (Player_init 60 490) = 100 \<and> invincible_timer (Player_init 60 490) = 0"
    by (simp add: Player_init_def)
  have t: "0 < invincible_timer (take_damage 20 (Player_init 60 490))"
    by (simp add: take_damage_def Player_init_def)
  show ?thesis
    using i t take_damage_idempotent_in_window [of "take_damage 20 (Player_init 60 490)" 20]
      take_damage_idempotent_in_window [of "Player_init 60 490" _ "replicate 10 no_keys" _ "[]"]
    by simp
qed

section \<open>C6: constructing an enemy with an empty patrol range\<close>

lemma build_level_enemies_constructed:
  "map (\<lambda>(ex, ey, pmin, pmax). Enemy_new ex ey pmin pmax) enemy_data
     = map Inr (l_enemies (build_level rnd))"
  by (simp add: enemy_data_def build_level_def Enemy_new_def c_int_range_def)

text \<open>
  C6 as the spec states it: \<open>Enemy(x, y, patrol_min, patrol_max)\<close> with
  \<open>patrol_min \<ge> patrol_max\<close> reports a construction error. \<open>Enemy.__init__\<close> stores the
  two bounds and never compares them, so the call at the position (0, 0) with the bounds
  200 and 100 returns an enemy.
\<close>

theorem Enemy_new_invalid_range_counterexample:
  "(100::int) \<le> 200 \<and> c_int_range 0 \<and> \<not> isl (Enemy_new 0 0 200 100)
   \<and> Enemy_new 0 0 200 100 = Inr (Enemy_init 0 0 200 100)"
  by (simp add: Enemy_new_def c_int_range_def)

text \<open>
  C6, amended: constructing an enemy does not check the patrol bounds. For every position
  that fits pygame's rectangle (x and y in the C \<open>int\<close> range) and every pair of bounds,
  \<open>patrol_min \<ge> patrol_max\<close> included, the call returns an enemy that stores the two bounds
  as given and walks right at speed 2. The only construction error is the \<open>TypeError\<close> for
  a position outside that range, and whether it occurs does not depend on the bounds.
\<close>

theorem Enemy_new_ignores_patrol_bounds:
  "(c_int_range x \<and> c_int_range y \<longrightarrow>
      Enemy_new x y pmin pmax = Inr (Enemy_init x y pmin pmax)
      \<and> patrol_min (Enemy_init x y pmin pmax) = pmin
      \<and> patrol_max (Enemy_init x y pmin pmax) = pmax
      \<and> e_vel_x (Enemy_init x y pmin pmax) = 2)
   \<and> (\<not> (c_int_range x \<and> c_int_range y) \<longrightarrow> Enemy_new x y pmin pmax = Inl TypeError)
   \<and> isl (Enemy_new x y pmin pmax) = isl (Enemy_new x y pmin2 pmax2)"
  by (simp add: Enemy_new_def Enemy_init_def)

theorem Enemy_new_ignores_patrol_bounds_witness:
  "c_int_range 0 \<and> (100::int) \<le> 200
   \<and> Enemy_new 0 0 200 100 = Inr (Enemy_init 0 0 200 100)
   \<and> patrol_min (Enemy_init 0 0 200 100) = 200
   \<and> patrol_max (Enemy_init 0 0 200 100) = 100
   \<and> \<not> c_int_range 2147483648
   \<and> Enemy_new 2147483648 0 200 100 = Inl TypeError
   \<and> isl (Enemy_new 2147483648 0 200 100) = isl (Enemy_new 2147483648 0 50 260)"
proof -
  have r: "c_int_range 0" "\<not> c_int_range 2147483648"
    by (simp_all add: c_int_range_def)
  have inside: "Enemy_new 0 0 200 100 = Inr (Enemy_init 0 0 200 100)
                \<and> patrol_min (Enemy_init 0 0 200 100) = 200
                \<and> patrol_max (Enemy_init 0 0 200 100) = 100"
    using r(1) Enemy_new_ignores_patrol_bounds [where x = 0 and y = 0 and pmin = 200
        and pmax = 100]
    by simp
  have outside: "Enemy_new 2147483648 0 200 100 = Inl TypeError"
    using r(2) Enemy_new_ignores_patrol_bounds [where x = 2147483648 and y = 0 and pmin = 200
        and pmax = 100]
    by simp
  have same: "isl (Enemy_new 2147483648 0 200 100) = isl (Enemy_new 2147483648 0 50 260)"
    using Enemy_new_ignores_patrol_bounds [where x = 2147483648 and y = 0 and pmin = 200
        and pmax = 100 and ?pmin2.0 = 50 and ?pmax2.0 = 260]
    by (elim conjE)
  from r inside outside same show ?thesis
    by (intro conjI) simp_all
qed

section \<open>The steps of one playing tick\<close>

lemma take_damage_health_ok: "health_ok p \<Longrightarrow> 0 \<le> a \<Longrightarrow> health_ok (take_damage a p)"
  by (simp add: take_damage_def health_ok_def Let_def)

lemma fall_off_screen_health_ok: "health_ok p \<Longrightarrow> health_ok (fall_off_screen p)"
  by (simp add: fall_off_screen_def health_ok_def)

lemma Player_update_health_ok: "health_ok p \<Longrightarrow> health_ok (Player_update ks qs p)"
  by (simp add: health_ok_def Player_update_keeps)

lemma Player_init_health_ok: "health_ok (Player_init x y)"
  by (simp add: health_ok_def Player_init_def)

lemma step_entities_fields:
  "g_state (step_entities ks g) = g_state g"
  "total_coins (step_entities ks g) = total_coins g"
  "length (g_coins (step_entities ks g)) = length (g_coins g)"
  "g_player (step_entities ks g) = Player_update ks (g_platforms g) (g_player g)"
  by (simp_all add: step_entities_def)

lemma step_collect_fields:
  "g_state (step_collect g) = g_state g"
  "total_coins (step_collect g) = total_coins g"
  "health (g_player (step_collect g)) = health (g_player g)"
  "max_health (g_player (step_collect g)) = max_health (g_player g)"
  "length (g_coins (step_collect g)) \<le> length (g_coins g)"
  "score (g_player (step_collect g))
     = score (g_player g) + 10 * (int (length (g_coins g)) - int (length (g_coins (step_collect g))))"
proof -
  let ?hit = "\<lambda>c. colliderect (p_rect (g_player g)) (coin_rect c)"
  have "length (filter ?hit (g_coins g)) + length (filter (\<lambda>c. \<not> ?hit c) (g_coins g)) = length (g_coins g)"
    by (rule sum_length_filter_compl)
  then show "score (g_player (step_collect g))
     = score (g_player g) + 10 * (int (length (g_coins g)) - int (length (g_coins (step_collect g))))"
    by (simp add: step_collect_def Let_def)
qed (simp_all add: step_collect_def Let_def)

lemma step_win_fields:
  "g_player (step_win g) = g_player g"
  "g_coins (step_win g) = g_coins g"
  "total_coins (step_win g) = total_coins g"
  "g_state (step_win g) = (if g_coins g = [] then Win else g_state g)"
  by (simp_all add: step_win_def)

lemma step_enemy_hit_fields:
  "g_coins (step_enemy_hit g) = g_coins g"
  "total_coins (step_enemy_hit g) = total_coins g"
  "g_state (step_enemy_hit g) = g_state g"
  "g_player (step_enemy_hit g) = g_player g \<or> g_player (step_enemy_hit g) = take_damage 20 (g_player g)"
  by (simp_all add: step_enemy_hit_def)

lemma step_fall_fields:
  "g_coins (step_fall g) = g_coins g"
  "total_coins (step_fall g) = total_coins g"
  "g_state (step_fall g) = g_state g"
  "g_player (step_fall g) = fall_off_screen (g_player g)"
  by (simp_all add: step_fall_def)

lemma step_dead_fields:
  "g_coins (step_dead g) = g_coins g"
  "total_coins (step_dead g) = total_coins g"
  "g_player (step_dead g) = g_player g"
  "g_state (step_dead g) = (if is_dead (g_player g) then GameOver else g_state g)"
  by (simp_all add: step_dead_def)

lemma take_damage_score: "score (take_damage a p) = score p"
  by (simp add: take_damage_def Let_def)

lemma fall_off_screen_score: "score (fall_off_screen p) = score p"
  by (simp add: fall_off_screen_def)

lemma step_enemy_hit_score: "score (g_player (step_enemy_hit g)) = score (g_player g)"
  by (simp add: step_enemy_hit_def take_damage_score)

lemma step_enemy_hit_health_ok: "health_ok (g_player g) \<Longrightarrow> health_ok (g_player (step_enemy_hit g))"
  by (simp add: step_enemy_hit_def take_damage_health_ok)

lemma step_collect_health_ok: "health_ok (g_player g) \<Longrightarrow> health_ok (g_player (step_collect g))"
  by (simp add: health_ok_def step_collect_fields)

lemma health_ok_after_hit:
  "health_ok (g_player g) \<Longrightarrow>
   health_ok (g_player (step_enemy_hit (step_win (step_collect (step_entities ks g)))))"
  by (simp add: step_enemy_hit_health_ok step_win_fields step_collect_health_ok
        step_entities_fields Player_update_health_ok)

lemma update_playing_health_ok:
  "health_ok (g_player g) \<Longrightarrow> health_ok (g_player (update_playing ks g))"
  by (simp add: update_playing_def step_dead_fields step_fall_fields fall_off_screen_health_ok
        health_ok_after_hit)

lemma update_playing_coins:
  "g_coins (update_playing ks g) = g_coins (step_collect (step_entities ks g))"
  by (simp add: update_playing_def step_dead_fields step_fall_fields step_enemy_hit_fields
        step_win_fields)

lemma update_playing_total: "total_coins (update_playing ks g) = total_coins g"
  by (simp add: update_playing_def step_dead_fields step_fall_fields step_enemy_hit_fields
        step_win_fields step_collect_fields step_entities_fields)

lemma update_playing_score:
  "score (g_player (update_playing ks g))
     = score (g_player g) + 10 * (int (length (g_coins g)) - int (length (g_coins (update_playing ks g))))"
proof -
  have "score (g_player (update_playing ks g)) = score (g_player (step_collect (step_entities ks g)))"
    by (simp add: update_playing_def step_dead_fields step_fall_fields fall_off_screen_score
          step_enemy_hit_score step_win_fields)
  then show ?thesis
    by (simp add: update_playing_coins step_collect_fields(6) [of "step_entities ks g"]
          step_entities_fields Player_update_keeps)
qed

lemma update_playing_coins_le:
  "length (g_coins (update_playing ks g)) \<le> length (g_coins g)"
  using step_collect_fields(5) [of "step_entities ks g"]
  by (simp add: update_playing_coins step_entities_fields)

lemma update_playing_score_ok: "score_ok g \<Longrightarrow> score_ok (update_playing ks g)"
  using update_playing_coins_le [of ks g]
  by (simp add: score_ok_def update_playing_score update_playing_total)

lemma update_playing_state:
  "g_state (update_playing ks g)
     = (if is_dead (g_player (update_playing ks g)) then GameOver
        else if g_coins (update_playing ks g) = [] then Win else g_state g)"
proof -
  have p: "g_player (update_playing ks g)
             = g_player (step_fall (step_enemy_hit (step_win (step_collect (step_entities ks g)))))"
    by (simp add: update_playing_def step_dead_fields)
  show ?thesis
    unfolding p update_playing_coins
    by (simp add: update_playing_def step_dead_fields step_fall_fields step_enemy_hit_fields
          step_win_fields step_collect_fields step_entities_fields)
qed

lemma load_level_fields:
  "g_player (load_level s (build_level rnd)) = Player_init 60 490"
  "g_state (load_level s l) = s"
  "total_coins (load_level s l) = int (length (l_coins l))"
  "g_coins (load_level s l) = l_coins l"
  by (simp_all add: load_level_def build_level_def)

lemma length_make_coins: "length (make_coins rnd i ps) = length ps"
  by (induction rnd i ps rule: make_coins.induct) simp_all

lemma build_level_coins: "length (l_coins (build_level rnd)) = 13"
  by (simp add: build_level_def length_make_coins coin_positions_def)

lemma handle_events_invariant:
  assumes "\<And>rnd s. I (load_level s (build_level rnd))"
  shows "handle_events rnd es g = Some g' \<Longrightarrow> I g \<Longrightarrow> I g'"
  by (induction rnd es g rule: handle_events.induct) (auto simp: assms split: if_splits)

lemma run_invariant:
  assumes init: "\<And>rnd s. I (load_level s (build_level rnd))"
      and step: "\<And>ks g. I g \<Longrightarrow> I (update_playing ks g)"
  shows "run inps g = Some g' \<Longrightarrow> I g \<Longrightarrow> I g'"
proof (induction inps arbitrary: g)
  case Nil
  then show ?case by simp
next
  case (Cons inp inps)
  from Cons.prems(1) obtain g1 where m: "main_iter inp g = Some g1" and r: "run inps g1 = Some g'"
    by (auto split: option.splits)
  from m obtain g0 where h: "handle_events (in_rnd inp) (in_events inp) g = Some g0"
    and g1: "g1 = (if g_state g0 = Playing then update_playing (in_keys inp) g0 else g0)"
    by (auto simp: main_iter_def split: option.splits)
  have "I g0" using handle_events_invariant [of I, OF init h Cons.prems(2)] .
  then have "I g1" using g1 step by simp
  then show ?case using Cons.IH [OF r] by simp
qed

lemma reachable_health_ok:
  assumes "run inps (main_init rnd) = Some g"
  shows "health_ok (g_player g)"
proof (rule run_invariant [where I = "\<lambda>g. health_ok (g_player g)", OF _ _ assms])
  show "health_ok (g_player (load_level s (build_level r)))" for r s
    by (simp add: load_level_fields Player_init_health_ok)
  show "health_ok (g_player (update_playing ks g))" if "health_ok (g_player g)" for ks g
    using that by (rule update_playing_health_ok)
  show "health_ok (g_player (main_init rnd))"
    by (simp add: main_init_def load_level_fields Player_init_health_ok)
qed

lemma reachable_total:
  assumes "run inps (main_init rnd) = Some g"
  shows "total_coins g = 13"
proof (rule run_invariant [where I = "\<lambda>g. total_coins g = 13", OF _ _ assms])
  show "total_coins (load_level s (build_level r)) = 13" for r s
    by (simp add: load_level_fields build_level_coins)
  show "total_coins (update_playing ks g) = 13" if "total_coins g = 13" for ks g
    using that by (simp add: update_playing_total)
  show "total_coins (main_init rnd) = 13"
    by (simp add: main_init_def load_level_fields build_level_coins)
qed

lemma load_level_score_ok: "score_ok (load_level s (build_level r))"
  by (simp add: score_ok_def load_level_fields build_level_coins Player_init_def)

lemma reachable_score_ok:
  assumes "run inps (main_init rnd) = Some g"
  shows "score_ok g"
proof (rule run_invariant [where I = score_ok, OF _ _ assms])
  show "score_ok (load_level s (build_level r))" for r s
    by (rule load_level_score_ok)
  show "score_ok (update_playing ks g)" if "score_ok g" for ks g
    using that by (rule update_playing_score_ok)
  show "score_ok (main_init rnd)"
    by (simp add: main_init_def load_level_score_ok)
qed

lemma handle_events_playing:
  "handle_events rnd es g = Some g' \<Longrightarrow> g_state g = Playing \<Longrightarrow> g' = g"
  by (induction rnd es g rule: handle_events.induct) (auto split: if_splits)

lemma handle_events_no_return:
  "handle_events rnd es g = Some g' \<Longrightarrow> KEYDOWN K_RETURN \<notin> set es \<Longrightarrow> g' = g"
  by (induction rnd es g rule: handle_events.induct) (auto split: if_splits)

lemma main_iter_playing:
  "g_state g = Playing \<Longrightarrow> main_iter inp g = Some g' \<Longrightarrow> g' = update_playing (in_keys inp) g"
  by (auto simp: main_iter_def split: option.splits dest: handle_events_playing)

section \<open>One tick evaluated: the last coin, next to an enemy\<close>

lemmas rect_defs = rect_left_def rect_right_def rect_top_def rect_bottom_def rect_centerx_def
  rect_centery_def set_left_def set_right_def set_top_def set_bottom_def set_centery_def
  move_x_def move_y_def rect_topleft_def rect_center_def half_def colliderect_def

lemma run_start_frame: "run [start_frame] (main_init zero_rnd) = Some first_tick"
  by (simp add: main_iter_def start_frame_def main_init_def load_level_fields first_tick_def)

lemma py_int_values: "py_int (3 / 5) = 0" "py_int 0 = 0" "py_int 3 = 3"
  by (simp_all add: py_int_def)

lemma rotate_y_360: "rotate_y 360 = 1"
  by (simp add: rotate_y_def)

lemma lcg_handle_input:
  "handle_input no_keys ((Player_init 60 512)\<lparr>health := hp, score := 120\<rparr>)
     = (Player_init 60 512)\<lparr>health := hp, score := 120\<rparr>"
  by (simp add: handle_input_def no_keys_def Player_init_def Let_def)

lemma lcg_apply_gravity:
  "apply_gravity ((Player_init 60 512)\<lparr>health := hp, score := 120\<rparr>)
     = (Player_init 60 512)\<lparr>health := hp, score := 120, vel_y := 3 / 5\<rparr>"
  by (simp add: apply_gravity_def Player_init_def GRAVITY_def Let_def)

lemma lcg_move_horizontal:
  "move_horizontal [Platform_init 0 560 800 40]
      ((Player_init 60 512)\<lparr>health := hp, score := 120, vel_y := 3 / 5\<rparr>)
     = (Player_init 60 512)\<lparr>health := hp, score := 120, vel_y := 3 / 5\<rparr>"
  by (simp add: move_horizontal_def collide_x_def Player_init_def Platform_init_def rect_defs
        py_int_values)

lemma lcg_move_vertical:
  "move_vertical [Platform_init 0 560 800 40]
      ((Player_init 60 512)\<lparr>health := hp, score := 120, vel_y := 3 / 5\<rparr>)
     = (Player_init 60 512)\<lparr>health := hp, score := 120, vel_y := 3 / 5\<rparr>"
  by (simp add: move_vertical_def collide_y_def Player_init_def Platform_init_def rect_defs
        py_int_values)

lemma lcg_clamp:
  "clamp_to_screen ((Player_init 60 512)\<lparr>health := hp, score := 120, vel_y := 3 / 5\<rparr>)
     = (Player_init 60 512)\<lparr>health := hp, score := 120, vel_y := 3 / 5\<rparr>"
  by (simp add: clamp_to_screen_def Player_init_def rect_defs SCREEN_W_def)

lemma lcg_timer:
  "invincible_timer ((Player_init 60 512)\<lparr>health := hp, score := 120, vel_y := 3 / 5\<rparr>) = 0"
  by (simp add: Player_init_def)

lemma lcg_Player_update:
  "Player_update no_keys [Platform_init 0 560 800 40]
      ((Player_init 60 512)\<lparr>health := hp, score := 120\<rparr>)
     = (Player_init 60 512)\<lparr>health := hp, score := 120, vel_y := 3 / 5\<rparr>"
  unfolding Player_update_def move_and_collide_def lcg_handle_input lcg_apply_gravity
    lcg_move_horizontal lcg_move_vertical
  by (simp add: lcg_clamp lcg_timer)

lemma lcg_Enemy_update:
  "Enemy_update [Platform_init 0 560 800 40] (Enemy_init 70 518 50 260) = Enemy_init 72 518 50 260"
  by (simp add: Enemy_update_def Enemy_init_def Platform_init_def spritecollideany_def rect_defs
        Let_def)

lemma lcg_Coin_update: "Coin_update (Coin_init 76 536 59) = Coin_init 76 536 60"
  by (simp add: Coin_update_def Coin_init_def rect_defs Let_def rotate_y_360 py_int_values)

lemma lcg_step_entities:
  "step_entities no_keys (last_coin_game hp)
     = (last_coin_game hp)
         \<lparr>g_player := (Player_init 60 512)\<lparr>health := hp, score := 120, vel_y := 3 / 5\<rparr>,
          g_enemies := [Enemy_init 72 518 50 260], g_coins := [Coin_init 76 536 60]\<rparr>"
  by (simp add: step_entities_def last_coin_game_def lcg_Player_update lcg_Enemy_update
        lcg_Coin_update)

lemma lcg_after_entities:
  "p_rect (g_player (step_entities no_keys (last_coin_game hp))) = rect_topleft 60 512 32 48"
  "health (g_player (step_entities no_keys (last_coin_game hp))) = hp"
  "invincible_timer (g_player (step_entities no_keys (last_coin_game hp))) = 0"
  "g_coins (step_entities no_keys (last_coin_game hp)) = [Coin_init 76 536 60]"
  "g_enemies (step_entities no_keys (last_coin_game hp)) = [Enemy_init 72 518 50 260]"
  by (simp_all add: lcg_step_entities Player_init_def)

lemma lcg_overlaps:
  "colliderect (rect_topleft 60 512 32 48) (coin_rect (Coin_init 76 536 60))"
  "colliderect (rect_topleft 60 512 32 48) (enemy_rect (Enemy_init 72 518 50 260))"
  "\<not> rect_top (rect_topleft 60 512 32 48) > SCREEN_H + 50"
  by (simp_all add: Coin_init_def Enemy_init_def rect_defs SCREEN_H_def)

lemma lcg_after_collect:
  "p_rect (g_player (step_collect (step_entities no_keys (last_coin_game hp))))
     = rect_topleft 60 512 32 48"
  "health (g_player (step_collect (step_entities no_keys (last_coin_game hp)))) = hp"
  "invincible_timer (g_player (step_collect (step_entities no_keys (last_coin_game hp)))) = 0"
  "g_coins (step_collect (step_entities no_keys (last_coin_game hp))) = []"
  "g_enemies (step_collect (step_entities no_keys (last_coin_game hp)))
     = [Enemy_init 72 518 50 260]"
  by (simp_all add: step_collect_def Let_def lcg_after_entities lcg_overlaps)

lemma lcg_after_hit:
  "g_player (step_enemy_hit (step_win (step_collect (step_entities no_keys (last_coin_game hp)))))
     = take_damage 20 (g_player (step_collect (step_entities no_keys (last_coin_game hp))))"
  by (simp add: step_enemy_hit_def step_win_def lcg_after_collect lcg_overlaps)

lemma lcg_take_damage:
  "health (take_damage 20 (g_player (step_collect (step_entities no_keys (last_coin_game hp)))))
     = (if hp - 20 < 0 then 0 else hp - 20)"
  "p_rect (take_damage 20 (g_player (step_collect (step_entities no_keys (last_coin_game hp)))))
     = rect_topleft 60 512 32 48"
  by (simp_all add: take_damage_def Let_def lcg_after_collect)

lemma lcg_final_health:
  "health (g_player (update_playing no_keys (last_coin_game hp)))
     = (if hp - 20 < 0 then 0 else hp - 20)"
  by (simp add: update_playing_def step_dead_fields step_fall_fields fall_off_screen_def
        lcg_after_hit lcg_take_damage lcg_overlaps)

lemma lcg_final_coins: "g_coins (update_playing no_keys (last_coin_game hp)) = []"
  by (simp add: update_playing_coins lcg_after_collect)

lemma lcg_dying:
  "g_coins (update_playing no_keys (last_coin_game 20)) = []
   \<and> g_state (update_playing no_keys (last_coin_game 20)) = GameOver
   \<and> health (g_player (update_playing no_keys (last_coin_game 20))) = 0"
  by (simp add: update_playing_state lcg_final_coins lcg_final_health is_dead_def)

lemma lcg_alive:
  "g_coins (update_playing no_keys (last_coin_game 100)) = []
   \<and> health (g_player (update_playing no_keys (last_coin_game 100))) = 80"
  by (simp add: lcg_final_coins lcg_final_health)

section \<open>C2: the tick that empties the coin set\<close>

text \<open>
  C2 as the spec states it: a playing tick that leaves the coin set empty ends in phase
  Win. \<open>main\<close> sets \<open>state = "win"\<close> first and tests \<open>player.is_dead()\<close> afterwards, so a
  player who picks up the last coin and loses the last health in the same tick ends in
  GameOver. Here the player (health 20) stands on the ground at x = 60 and overlaps both
  the last coin and an enemy.
\<close>

theorem win_on_empty_coin_set_counterexample:
  "g_state (last_coin_game 20) = Playing
   \<and> main_iter \<lparr>in_keys = no_keys, in_events = [], in_rnd = zero_rnd\<rparr> (last_coin_game 20)
       = Some (update_playing no_keys (last_coin_game 20))
   \<and> g_coins (update_playing no_keys (last_coin_game 20)) = []
   \<and> g_state (update_playing no_keys (last_coin_game 20)) = GameOver
   \<and> g_state (update_playing no_keys (last_coin_game 20)) \<noteq> Win"
  using lcg_dying by (simp add: main_iter_def last_coin_game_def)

text \<open>
  C2, amended: a tick of phase Playing that leaves the coin set empty ends in Win when the
  player is alive at the end of the tick, and in GameOver when the player is dead then; in
  both cases the coin counter of that tick reads total/total. In every state that \<open>main\<close>
  reaches, total_coins is 13, so the counter reads 13/13 once the coin set is empty.
\<close>

theorem win_on_empty_coin_set:
  "(g_state g = Playing \<and> main_iter inp g = Some g' \<and> g_coins g' = [] \<longrightarrow>
      g_state g' = (if is_dead (g_player g') then GameOver else Win)
      \<and> coin_info g' = (total_coins g, total_coins g))
   \<and> (run inps (main_init rnd) = Some g \<longrightarrow>
        total_coins g = 13 \<and> total_coins (update_playing ks g) = 13)"
proof (intro conjI impI)
  assume a: "g_state g = Playing \<and> main_iter inp g = Some g' \<and> g_coins g' = []"
  then have g': "g' = update_playing (in_keys inp) g" by (simp add: main_iter_playing)
  show "g_state g' = (if is_dead (g_player g') then GameOver else Win)"
    using a unfolding g' by (simp add: update_playing_state)
  show "coin_info g' = (total_coins g, total_coins g)"
    using a unfolding g' by (simp add: coin_info_def update_playing_total)
next
  assume r: "run inps (main_init rnd) = Some g"
  then show "total_coins g = 13" by (rule reachable_total)
  then show "total_coins (update_playing ks g) = 13" by (simp add: update_playing_total)
qed

theorem win_on_empty_coin_set_witness:
  "g_state (last_coin_game 100) = Playing
   \<and> main_iter \<lparr>in_keys = no_keys, in_events = [], in_rnd = zero_rnd\<rparr> (last_coin_game 100)
       = Some (update_playing no_keys (last_coin_game 100))
   \<and> g_coins (update_playing no_keys (last_coin_game 100)) = []
   \<and> g_state (update_playing no_keys (last_coin_game 100)) = Win
   \<and> coin_info (update_playing no_keys (last_coin_game 100)) = (13, 13)
   \<and> run [start_frame] (main_init zero_rnd) = Some first_tick
   \<and> total_coins first_tick = 13"
proof -
  let ?inp = "\<lparr>in_keys = no_keys, in_events = [], in_rnd = zero_rnd\<rparr>"
  have s: "g_state (last_coin_game 100) = Playing" "total_coins (last_coin_game 100) = 13"
    by (simp_all add: last_coin_game_def)
  have m: "main_iter ?inp (last_coin_game 100) = Some (update_playing no_keys (last_coin_game 100))"
    by (simp add: main_iter_def s)
  have d: "\<not> is_dead (g_player (update_playing no_keys (last_coin_game 100)))"
    using lcg_alive by (simp add: is_dead_def)
  show ?thesis
    using s m d lcg_alive run_start_frame
      win_on_empty_coin_set [of "last_coin_game 100" ?inp "update_playing no_keys (last_coin_game 100)"
        "[start_frame]" zero_rnd no_keys]
      win_on_empty_coin_set [of first_tick _ _ "[start_frame]" zero_rnd]
    by simp
qed

section \<open>C3: the health stays between 0 and max_health\<close>

text \<open>
  C3: \<open>0 \<le> health \<le> max_health = 100\<close> holds after construction, is kept by
  \<open>Player.update\<close>, by \<open>take_damage\<close> (for the amounts \<open>\<ge> 0\<close>; \<open>main\<close> only passes 20) and
  by the fall-off-screen rule, and therefore holds in every state that \<open>main\<close> reaches
  and at every point inside the next tick: after the entity updates, after the enemy hit
  and at the end of the tick.
\<close>

theorem health_within_bounds:
  "health_ok (Player_init x y)
   \<and> (health_ok p \<longrightarrow> health_ok (Player_update ks platforms p))
   \<and> (health_ok p \<and> 0 \<le> amount \<longrightarrow> health_ok (take_damage amount p))
   \<and> (health_ok p \<longrightarrow> health_ok (fall_off_screen p))
   \<and> (run inps (main_init rnd) = Some g \<longrightarrow>
        health_ok (g_player g)
        \<and> health_ok (g_player (step_entities ks g))
        \<and> health_ok (g_player (step_enemy_hit (step_win (step_collect (step_entities ks g)))))
        \<and> health_ok (g_player (update_playing ks g)))"
proof (intro conjI impI)
  show "health_ok (Player_init x y)" by (rule Player_init_health_ok)
  show "health_ok (Player_update ks platforms p)" if "health_ok p"
    using that by (rule Player_update_health_ok)
  show "health_ok (take_damage amount p)" if "health_ok p \<and> 0 \<le> amount"
    using that by (simp add: take_damage_health_ok)
  show "health_ok (fall_off_screen p)" if "health_ok p"
    using that by (rule fall_off_screen_health_ok)
next
  assume "run inps (main_init rnd) = Some g"
  then show ok: "health_ok (g_player g)" by (rule reachable_health_ok)
  then show "health_ok (g_player (step_entities ks g))"
    by (simp add: step_entities_fields Player_update_health_ok)
  show "health_ok (g_player (step_enemy_hit (step_win (step_collect (step_entities ks g)))))"
    using ok by (rule health_ok_after_hit)
  show "health_ok (g_player (update_playing ks g))"
    using ok by (rule update_playing_health_ok)
qed

theorem health_within_bounds_witness:
  "health_ok (Player_init 60 490) \<and> (0::int) \<le> 20
   \<and> health_ok (Player_update no_keys [] (Player_init 60 490))
   \<and> health_ok (take_damage 20 (Player_init 60 490))
   \<and> health_ok (fall_off_screen (Player_init 60 490))
   \<and> run [start_frame] (main_init zero_rnd) = Some first_tick
   \<and> health_ok (g_player first_tick)
   \<and> health_ok (g_player (update_playing no_keys first_tick))"
  using health_within_bounds [where x = 60 and y = 490 and p = "Player_init 60 490"
      and ks = no_keys and platforms = "[]" and amount = 20 and inps = "[start_frame]"
      and rnd = zero_rnd and g = first_tick] run_start_frame
  by simp

section \<open>C10: the health never goes up within a run\<close>

text \<open>
  C10: a new player has health 100 = max_health. \<open>Player.update\<close> leaves the health as it
  is; \<open>take_damage\<close> and the fall-off-screen rule never raise a health that is \<open>\<ge> 0\<close>.
  So in every state that \<open>main\<close> reaches the health is \<open>\<ge> 0\<close>, a playing tick never
  raises it, a frame in phase Playing never raises it (no rebuild happens there), and a
  frame outside Playing without the RETURN key changes nothing at all.
\<close>

theorem health_never_increases:
  "health (Player_init x y) = 100 \<and> max_health (Player_init x y) = 100
   \<and> health (Player_update ks platforms p) = health p
   \<and> (0 \<le> health p \<and> 0 \<le> amount \<longrightarrow> health (take_damage amount p) \<le> health p)
   \<and> (0 \<le> health p \<longrightarrow> health (fall_off_screen p) \<le> health p)
   \<and> (run inps (main_init rnd) = Some g \<longrightarrow>
        0 \<le> health (g_player g)
        \<and> health (g_player (update_playing ks g)) \<le> health (g_player g)
        \<and> (g_state g = Playing \<and> main_iter inp g = Some g' \<longrightarrow>
             health (g_player g') \<le> health (g_player g))
        \<and> (g_state g \<noteq> Playing \<and> KEYDOWN K_RETURN \<notin> set (in_events inp)
             \<and> main_iter inp g = Some g' \<longrightarrow> g' = g))"
proof -
  have td: "health (take_damage a q) \<le> health q" if "0 \<le> health q" "0 \<le> a" for a q
    using that by (simp add: take_damage_def Let_def)
  have fo: "health (fall_off_screen q) \<le> health q" if "0 \<le> health q" for q
    using that by (simp add: fall_off_screen_def)
  have up: "health (g_player (update_playing ks h)) \<le> health (g_player h)"
    if nn: "0 \<le> health (g_player h)" for ks h
  proof -
    let ?g2 = "step_win (step_collect (step_entities ks h))"
    have h2: "health (g_player ?g2) = health (g_player h)"
      by (simp add: step_win_fields step_collect_fields step_entities_fields Player_update_keeps)
    have "g_player (step_enemy_hit ?g2) = g_player ?g2
            \<or> g_player (step_enemy_hit ?g2) = take_damage 20 (g_player ?g2)"
      by (rule step_enemy_hit_fields)
    then have h3: "health (g_player (step_enemy_hit ?g2)) \<le> health (g_player h)"
         and n3: "0 \<le> health (g_player (step_enemy_hit ?g2))"
      using td [of "g_player ?g2" 20] h2 nn by (auto simp: take_damage_def Let_def)
    have "health (g_player (update_playing ks h))
            = health (fall_off_screen (g_player (step_enemy_hit ?g2)))"
      by (simp add: update_playing_def step_dead_fields step_fall_fields)
    then show ?thesis using fo [OF n3] h3 by simp
  qed
  have reach: "0 \<le> health (g_player g)" if "run inps (main_init rnd) = Some g"
    using reachable_health_ok [OF that] by (simp add: health_ok_def)
  have idle: "g' = g"
    if "g_state g \<noteq> Playing" "KEYDOWN K_RETURN \<notin> set (in_events inp)" "main_iter inp g = Some g'"
    using that by (auto simp: main_iter_def split: option.splits dest: handle_events_no_return)
  show ?thesis
    using td [of p amount] fo [of p] up reach idle
    by (auto simp: Player_init_def Player_update_keeps dest: main_iter_playing)
qed

theorem health_never_increases_witness:
  "0 \<le> health (Player_init 60 490) \<and> (0::int) \<le> 20
   \<and> health (take_damage 20 (Player_init 60 490)) \<le> health (Player_init 60 490)
   \<and> health (fall_off_screen (Player_init 60 490)) \<le> health (Player_init 60 490)
   \<and> run [start_frame] (main_init zero_rnd) = Some first_tick
   \<and> health (g_player (update_playing no_keys first_tick)) \<le> health (g_player first_tick)"
  using health_never_increases [where p = "Player_init 60 490" and amount = 20
      and inps = "[start_frame]" and rnd = zero_rnd and g = first_tick and ks = no_keys] run_start_frame
  by (simp add: Player_init_def)

section \<open>C9: the score counts the removed coins\<close>

text \<open>
  C9: in every state that \<open>main\<close> reaches, the score is 10 times
  \<open>total_coins - len(coins)\<close>, hence a non-negative multiple of 10. Every playing tick adds
  10 for each coin it removes, however many that are, and a player starts with score 0.
\<close>

theorem score_counts_removed_coins:
  "(run inps (main_init rnd) = Some g \<longrightarrow>
      score (g_player g) = 10 * (total_coins g - int (length (g_coins g)))
      \<and> 0 \<le> score (g_player g) \<and> 10 dvd score (g_player g))
   \<and> score (g_player (update_playing ks g))
       = score (g_player g)
         + 10 * (int (length (g_coins g)) - int (length (g_coins (update_playing ks g))))
   \<and> score (Player_init x y) = 0"
proof (intro conjI impI)
  assume "run inps (main_init rnd) = Some g"
  then have ok: "score_ok g" by (rule reachable_score_ok)
  then show s: "score (g_player g) = 10 * (total_coins g - int (length (g_coins g)))"
    by (simp add: score_ok_def)
  show "0 \<le> score (g_player g)" using ok by (simp add: score_ok_def)
  show "10 dvd score (g_player g)" unfolding s by simp
next
  show "score (g_player (update_playing ks g))
       = score (g_player g)
         + 10 * (int (length (g_coins g)) - int (length (g_coins (update_playing ks g))))"
    by (rule update_playing_score)
  show "score (Player_init x y) = 0" by (simp add: Player_init_def)
qed

theorem score_counts_removed_coins_witness:
  "run [start_frame] (main_init zero_rnd) = Some first_tick
   \<and> score (g_player first_tick) = 10 * (total_coins first_tick - int (length (g_coins first_tick)))
   \<and> 10 dvd score (g_player first_tick)
   \<and> score (g_player (update_playing no_keys (last_coin_game 100))) = 130"
  using score_counts_removed_coins [where inps = "[start_frame]" and rnd = zero_rnd
      and g = first_tick] run_start_frame
    score_counts_removed_coins [where g = "last_coin_game 100" and ks = no_keys] lcg_final_coins [of 100]
  by (simp add: last_coin_game_def Player_init_def)

section \<open>C7: the bobbing of a coin\<close>

text \<open>
  \<open>bob_step t\<close> is what \<open>Coin.update\<close> adds to \<open>centery\<close> when the advanced timer is
  \<open>t\<close>. The value \<open>int(3 * cos)\<close> lies between -3 and 3, and Python's floor division by 6
  sends 0..3 to 0 and -3..-1 to -1, so a step is 0 or -1 and never positive. The two facts
  about the rotation that are used, \<open>\<bar>y\<bar> \<le> 1\<close> and \<open>y = -1\<close> at a half turn, also hold
  for pygame's floating-point result (pygame computes the multiples of 90 degrees
  exactly).
\<close>

lemma py_int_bounds: "\<bar>v\<bar> \<le> 3 \<Longrightarrow> - 3 \<le> py_int v \<and> py_int v \<le> 3"
  unfolding py_int_def by (auto simp: le_floor_iff floor_le_iff ceiling_le_iff le_ceiling_iff)

lemma small_div_6: "- 3 \<le> (i::int) \<Longrightarrow> i \<le> 3 \<Longrightarrow> i div 6 = (if i < 0 then - 1 else 0)"
  by auto

lemma rotate_y_abs: "\<bar>3 * rotate_y d\<bar> \<le> 3"
  using abs_cos_le_one [of "d * pi / 180"] by (simp add: rotate_y_def abs_mult)

lemma rotate_y_half_turn: "rotate_y (of_int ((30 + 60 * k) * 6)) = - 1"
proof -
  have "real_of_int ((30 + 60 * k) * 6) * pi / 180 = pi * of_int (2 * k + 1)"
    by (simp add: algebra_simps)
  then have "rotate_y (of_int ((30 + 60 * k) * 6)) = cos (pi * of_int (2 * k + 1))"
    unfolding rotate_y_def by (rule arg_cong)
  also have "\<dots> = - 1"
    unfolding cos_npi_int by simp
  finally show ?thesis .
qed

lemma centery_set_centery: "rect_centery (set_centery v r) = v"
  by (simp add: rect_centery_def set_centery_def)

lemma Coin_update_centery:
  "rect_centery (coin_rect (Coin_update c)) = rect_centery (coin_rect c) + bob_step (bob_timer c + 1)"
  "bob_timer (Coin_update c) = bob_timer c + 1"
  by (simp_all add: Coin_update_def Let_def centery_set_centery bob_step_def)

lemma bob_step_range: "bob_step t = - 1 \<or> bob_step t = 0"
  unfolding bob_step_def
  using py_int_bounds [OF rotate_y_abs, of "of_int (t * 6)"] small_div_6 by presburger

lemma bob_step_half_turn: "t mod 60 = 30 \<Longrightarrow> bob_step t = - 1"
proof -
  assume "t mod 60 = 30"
  then have "t = 30 + 60 * (t div 60)" by presburger
  then obtain k where t: "t = 30 + 60 * k" ..
  show ?thesis unfolding bob_step_def t rotate_y_half_turn by (simp add: py_int_def)
qed

lemma Coin_update_not_down: "rect_centery (coin_rect (Coin_update c)) \<le> rect_centery (coin_rect c)"
  using bob_step_range [of "bob_timer c + 1"] by (auto simp: Coin_update_centery)

lemma Coin_updates_timer: "bob_timer ((Coin_update ^^ n) c) = bob_timer c + int n"
  by (induction n) (simp_all add: Coin_update_centery)

lemma Coin_updates_not_down:
  "rect_centery (coin_rect ((Coin_update ^^ n) c)) \<le> rect_centery (coin_rect c)"
proof (induction n)
  case 0
  then show ?case by simp
next
  case (Suc n)
  have "rect_centery (coin_rect ((Coin_update ^^ Suc n) c))
          \<le> rect_centery (coin_rect ((Coin_update ^^ n) c))"
    by (simp add: Coin_update_not_down)
  then show ?case using Suc by linarith
qed

lemma Coin_update_60: "rect_centery (coin_rect ((Coin_update ^^ 60) c)) \<le> rect_centery (coin_rect c) - 1"
proof -
  define j where "j = nat ((29 - bob_timer c) mod 60)"
  have j1: "j < 60" unfolding j_def by simp
  have ij: "int j = (29 - bob_timer c) mod 60" unfolding j_def by simp
  have "(bob_timer c + (29 - bob_timer c) mod 60) mod 60 = (bob_timer c + (29 - bob_timer c)) mod 60"
    by (rule mod_add_right_eq)
  then have r: "(bob_timer c + (29 - bob_timer c) mod 60) mod 60 = 29" by simp
  have "(bob_timer c + (29 - bob_timer c) mod 60 + 1) mod 60
          = ((bob_timer c + (29 - bob_timer c) mod 60) mod 60 + 1) mod 60"
    by (rule mod_add_left_eq [symmetric])
  then have j2: "(bob_timer c + int j + 1) mod 60 = 30" unfolding r ij by simp
  note j = j1 j2
  define c1 where "c1 = (Coin_update ^^ j) c"
  define c2 where "c2 = Coin_update c1"
  have split: "(60::nat) = (59 - j) + (1 + j)" using j(1) by simp
  have all: "(Coin_update ^^ 60) c = (Coin_update ^^ (59 - j)) c2"
    unfolding c2_def c1_def by (subst split, subst funpow_add) simp
  have "bob_timer c1 + 1 = bob_timer c + int j + 1"
    unfolding c1_def by (simp add: Coin_updates_timer)
  then have "bob_step (bob_timer c1 + 1) = - 1" using j(2) by (simp add: bob_step_half_turn)
  then have "rect_centery (coin_rect c2) = rect_centery (coin_rect c1) - 1"
    unfolding c2_def by (simp add: Coin_update_centery)
  moreover have "rect_centery (coin_rect c1) \<le> rect_centery (coin_rect c)"
    unfolding c1_def by (rule Coin_updates_not_down)
  moreover have "rect_centery (coin_rect ((Coin_update ^^ (59 - j)) c2)) \<le> rect_centery (coin_rect c2)"
    by (rule Coin_updates_not_down)
  ultimately show ?thesis unfolding all by linarith
qed

lemma Coin_update_60k:
  "rect_centery (coin_rect ((Coin_update ^^ (60 * k)) c)) \<le> rect_centery (coin_rect c) - int k"
proof (induction k)
  case 0
  then show ?case by simp
next
  case (Suc k)
  have "60 * Suc k = 60 + 60 * k" by simp
  then have "(Coin_update ^^ (60 * Suc k)) c = (Coin_update ^^ 60) ((Coin_update ^^ (60 * k)) c)"
    by (simp only: funpow_add comp_def)
  then show ?case
    using Coin_update_60 [of "(Coin_update ^^ (60 * k)) c"] Suc by simp
qed

text \<open>
  C7 says that a coin stays within about 3 pixels of its spawn position for every number
  of ticks. The docstring of \<open>Coin.update\<close> promises an up-down bobbing, but the code adds
  \<open>offset // 6\<close> to the stored centre on every tick, and that is 0 or -1: the centre never
  moves down again, and it moves up by at least one pixel in any 60 consecutive ticks. The
  first coin of the level, with timer 0, is at least 4 pixels above its spawn height 435
  after 240 ticks, and higher without bound later.
\<close>

theorem Coin_update_drifts_upward:
  "rect_centery (coin_rect (Coin_update c)) \<le> rect_centery (coin_rect c)
   \<and> rect_centery (coin_rect ((Coin_update ^^ (60 * k)) c)) \<le> rect_centery (coin_rect c) - int k
   \<and> bob_timer (Coin_update c) = bob_timer c + 1
   \<and> rect_centery (coin_rect (Coin_init 170 435 0)) = 435
   \<and> rect_centery (coin_rect ((Coin_update ^^ 240) (Coin_init 170 435 0))) \<le> 431"
proof -
  have s: "rect_centery (coin_rect (Coin_init 170 435 0)) = 435"
    by (simp add: Coin_init_def rect_center_def rect_centery_def half_def)
  have "rect_centery (coin_rect ((Coin_update ^^ (60 * 4)) (Coin_init 170 435 0))) \<le> 435 - int 4"
    using Coin_update_60k [of 4 "Coin_init 170 435 0"] unfolding s .
  then have "rect_centery (coin_rect ((Coin_update ^^ 240) (Coin_init 170 435 0))) \<le> 431"
    by simp
  then show ?thesis
    using s Coin_update_not_down Coin_update_60k by (simp add: Coin_update_centery)
qed

section \<open>C8: an enemy stays inside its patrol range\<close>

lemma Enemy_update_fields:
  "patrol_min (Enemy_update qs e) = patrol_min e"
  "patrol_max (Enemy_update qs e) = patrol_max e"
  "rect_w (enemy_rect (Enemy_update qs e)) = rect_w (enemy_rect e)"
  "e_vel_x (Enemy_update qs e)
     = (if rect_x (enemy_rect e) + e_vel_x e \<le> patrol_min e
           \<or> rect_x (enemy_rect e) + e_vel_x e + rect_w (enemy_rect e) \<ge> patrol_max e
        then - e_vel_x e else e_vel_x e)"
  "rect_x (enemy_rect (Enemy_update qs e))
     = (if rect_x (enemy_rect e) + e_vel_x e \<le> patrol_min e
           \<or> rect_x (enemy_rect e) + e_vel_x e + rect_w (enemy_rect e) \<ge> patrol_max e
        then rect_x (enemy_rect e) - e_vel_x e else rect_x (enemy_rect e) + e_vel_x e)"
  by (simp_all add: Enemy_update_def Let_def rect_left_def rect_right_def move_x_def move_y_def
        set_bottom_def split: option.splits)

lemma Enemy_update_patrol_ok: "patrol_ok e \<Longrightarrow> patrol_ok (Enemy_update qs e)"
  unfolding patrol_ok_def rect_left_def rect_right_def Enemy_update_fields
  by auto

lemma Enemy_updates_patrol_ok: "patrol_ok e \<Longrightarrow> patrol_ok ((Enemy_update qs ^^ n) e)"
  by (induction n) (simp_all add: Enemy_update_patrol_ok)

lemma Enemy_updates_bounds:
  "patrol_min ((Enemy_update qs ^^ n) e) = patrol_min e \<and> patrol_max ((Enemy_update qs ^^ n) e) = patrol_max e"
  by (induction n) (simp_all add: Enemy_update_fields)

lemma patrol_ok_center: "patrol_ok e \<Longrightarrow> center_in_range e"
  by (auto simp: patrol_ok_def center_in_range_def rect_centerx_def rect_left_def rect_right_def half_def)

lemma build_level_patrol_ok: "e \<in> set (l_enemies (build_level rnd)) \<Longrightarrow> patrol_ok e"
  by (auto simp: build_level_def enemy_data_def Enemy_init_def patrol_ok_def rect_topleft_def
        rect_left_def rect_right_def)

lemma update_playing_enemies:
  "g_enemies (update_playing ks g) = map (Enemy_update (g_platforms g)) (g_enemies g)"
  by (simp add: update_playing_def step_dead_def step_fall_def step_enemy_hit_def step_win_def
        step_collect_def step_entities_def Let_def)

lemma reachable_patrol_ok:
  assumes "run inps (main_init rnd) = Some g"
  shows "\<forall>e \<in> set (g_enemies g). patrol_ok e"
proof (rule run_invariant [where I = "\<lambda>g. \<forall>e \<in> set (g_enemies g). patrol_ok e", OF _ _ assms])
  show "\<forall>e \<in> set (g_enemies (load_level s (build_level r))). patrol_ok e" for r s
    by (simp add: load_level_def build_level_patrol_ok)
  show "\<forall>e \<in> set (g_enemies (update_playing ks g)). patrol_ok e"
    if "\<forall>e \<in> set (g_enemies g). patrol_ok e" for ks g
    using that by (simp add: update_playing_enemies Enemy_update_patrol_ok)
  show "\<forall>e \<in> set (g_enemies (main_init rnd)). patrol_ok e"
    by (simp add: main_init_def load_level_def build_level_patrol_ok)
qed

lemma fifth_enemy_member: "Enemy_init 203 238 200 300 \<in> set (l_enemies (build_level rnd))"
  by (simp add: build_level_def enemy_data_def)

lemma fifth_enemy_walk_step:
  "200 < x + 2 \<Longrightarrow> x + 38 < 300 \<Longrightarrow>
   Enemy_update [] (Enemy_init x 238 200 300) = Enemy_init (x + 2) 238 200 300"
  by (simp add: Enemy_update_def Enemy_init_def spritecollideany_def Let_def rect_topleft_def
        rect_left_def rect_right_def move_x_def move_y_def)

lemma fifth_enemy_walk:
  "n \<le> 30 \<Longrightarrow>
   (Enemy_update [] ^^ n) (Enemy_init 203 238 200 300) = Enemy_init (203 + 2 * int n) 238 200 300"
proof (induction n)
  case 0
  then show ?case by simp
next
  case (Suc n)
  then have "(Enemy_update [] ^^ n) (Enemy_init 203 238 200 300)
               = Enemy_init (203 + 2 * int n) 238 200 300" by simp
  then have "(Enemy_update [] ^^ Suc n) (Enemy_init 203 238 200 300)
               = Enemy_update [] (Enemy_init (203 + 2 * int n) 238 200 300)" by simp
  also have "\<dots> = Enemy_init (203 + 2 * int n + 2) 238 200 300"
    using Suc.prems by (intro fifth_enemy_walk_step) simp_all
  finally show ?case by (simp add: algebra_simps)
qed

lemma fifth_enemy_bounce:
  "(Enemy_update [] ^^ 31) (Enemy_init 203 238 200 300)
     = (Enemy_init 261 238 200 300)\<lparr>e_vel_x := - 2\<rparr>"
proof -
  have "(31::nat) = Suc 30" by simp
  then have "(Enemy_update [] ^^ 31) (Enemy_init 203 238 200 300)
               = Enemy_update [] ((Enemy_update [] ^^ 30) (Enemy_init 203 238 200 300))"
    by (simp only: funpow.simps comp_def)
  also have "\<dots> = Enemy_update [] (Enemy_init 263 238 200 300)"
    using fifth_enemy_walk [of 30] by simp
  also have "\<dots> = (Enemy_init 261 238 200 300)\<lparr>e_vel_x := - 2\<rparr>"
    by (simp add: Enemy_update_def Enemy_init_def spritecollideany_def Let_def rect_topleft_def
          rect_left_def rect_right_def move_x_def move_y_def)
  finally show ?thesis .
qed

text \<open>
  C8: every enemy that \<open>build_level\<close> creates keeps its two bounds and has its horizontal
  centre within \<open>[patrol_min, patrol_max]\<close> after any number of calls of \<open>Enemy.update\<close>,
  whatever the platforms are; and in every state that \<open>main\<close> reaches every enemy has its
  centre within its bounds. The invariant behind it, \<open>patrol_ok\<close>, is the claim's
  parenthesis: speed 2 in either direction, the enemy strictly inside its range, and the
  range more than 40 wide (36 for the enemy and 4 for the nudge).
\<close>

theorem enemy_stays_in_patrol_range:
  "(e \<in> set (l_enemies (build_level rnd)) \<longrightarrow>
      patrol_min ((Enemy_update platforms ^^ n) e) = patrol_min e
      \<and> patrol_max ((Enemy_update platforms ^^ n) e) = patrol_max e
      \<and> patrol_min e \<le> rect_centerx (enemy_rect ((Enemy_update platforms ^^ n) e))
      \<and> rect_centerx (enemy_rect ((Enemy_update platforms ^^ n) e)) \<le> patrol_max e)
   \<and> (run inps (main_init rnd) = Some g \<longrightarrow> (\<forall>e' \<in> set (g_enemies g). center_in_range e'))"
proof (intro conjI impI)
  assume "e \<in> set (l_enemies (build_level rnd))"
  then have "patrol_ok ((Enemy_update platforms ^^ n) e)"
    by (simp add: build_level_patrol_ok Enemy_updates_patrol_ok)
  then have c: "center_in_range ((Enemy_update platforms ^^ n) e)" by (rule patrol_ok_center)
  show "patrol_min ((Enemy_update platforms ^^ n) e) = patrol_min e"
    and "patrol_max ((Enemy_update platforms ^^ n) e) = patrol_max e"
    by (simp_all add: Enemy_updates_bounds)
  show "patrol_min e \<le> rect_centerx (enemy_rect ((Enemy_update platforms ^^ n) e))"
    and "rect_centerx (enemy_rect ((Enemy_update platforms ^^ n) e)) \<le> patrol_max e"
    using c by (simp_all add: center_in_range_def Enemy_updates_bounds)
next
  assume "run inps (main_init rnd) = Some g"
  then show "\<forall>e' \<in> set (g_enemies g). center_in_range e'"
    using reachable_patrol_ok patrol_ok_center by blast
qed

theorem enemy_stays_in_patrol_range_witness:
  "Enemy_init 203 238 200 300 \<in> set (l_enemies (build_level zero_rnd))
   \<and> (Enemy_update [] ^^ 31) (Enemy_init 203 238 200 300)
       = (Enemy_init 261 238 200 300)\<lparr>e_vel_x := - 2\<rparr>
   \<and> rect_centerx (enemy_rect ((Enemy_update [] ^^ 31) (Enemy_init 203 238 200 300))) = 279
   \<and> 200 \<le> rect_centerx (enemy_rect ((Enemy_update [] ^^ 31) (Enemy_init 203 238 200 300)))
   \<and> rect_centerx (enemy_rect ((Enemy_update [] ^^ 31) (Enemy_init 203 238 200 300))) \<le> 300
   \<and> run [start_frame] (main_init zero_rnd) = Some first_tick
   \<and> list_all center_in_range (g_enemies first_tick)"
proof -
  have b: "patrol_min (Enemy_init 203 238 200 300) = 200"
          "patrol_max (Enemy_init 203 238 200 300) = 300"
    by (simp_all add: Enemy_init_def)
  have c: "rect_centerx (enemy_rect ((Enemy_init 261 238 200 300)\<lparr>e_vel_x := - 2\<rparr>)) = 279"
    by (simp add: Enemy_init_def rect_topleft_def rect_centerx_def half_def)
  show ?thesis
    using enemy_stays_in_patrol_range [where e = "Enemy_init 203 238 200 300"
        and rnd = zero_rnd and platforms = "[]" and n = 31 and inps = "[start_frame]"
        and g = first_tick]
      fifth_enemy_member [of zero_rnd] run_start_frame
    unfolding fifth_enemy_bounce b c list_all_iff by simp
qed

section \<open>C5: overlap after move_and_collide\<close>

text \<open>
  Each of the two loops of \<open>move_and_collide\<close> sets the velocity of its axis to 0 at the
  first platform that collides, and with velocity 0 a later collision moves nothing. So a
  pass is decided by the first platform, in list order, that the moved rectangle collides
  with.
\<close>

lemma collide_x_idle: "vel_x p = 0 \<Longrightarrow> collide_x q p = p"
  by (cases p) (simp add: collide_x_def)

lemma collide_y_idle: "vel_y p = 0 \<Longrightarrow> collide_y q p = p"
  by (simp add: collide_y_def)

lemma fold_collide_x_idle: "vel_x p = 0 \<Longrightarrow> fold collide_x qs p = p"
  by (induction qs) (simp_all add: collide_x_idle)

lemma fold_collide_y_idle: "vel_y p = 0 \<Longrightarrow> fold collide_y qs p = p"
  by (induction qs) (simp_all add: collide_y_idle)

lemma collide_x_stops: "colliderect (p_rect p) (plat_rect q) \<Longrightarrow> vel_x (collide_x q p) = 0"
  by (simp add: collide_x_def)

lemma collide_y_stops: "colliderect (p_rect p) (plat_rect q) \<Longrightarrow> vel_y (collide_y q p) = 0"
  by (simp add: collide_y_def)

lemma fold_collide_x_first:
  "fold collide_x qs p
     = (case spritecollideany (p_rect p) qs of None \<Rightarrow> p | Some q \<Rightarrow> collide_x q p)"
proof (induction qs)
  case Nil
  then show ?case by (simp add: spritecollideany_def)
next
  case (Cons a qs)
  show ?case
  proof (cases "colliderect (p_rect p) (plat_rect a)")
    case True
    then have "fold collide_x qs (collide_x a p) = collide_x a p"
      by (intro fold_collide_x_idle collide_x_stops)
    then show ?thesis using True by (simp add: spritecollideany_def)
  next
    case False
    then have "collide_x a p = p" by (simp add: collide_x_def)
    then show ?thesis using False Cons by (simp add: spritecollideany_def)
  qed
qed

lemma fold_collide_y_first:
  "fold collide_y qs p
     = (case spritecollideany (p_rect p) qs of None \<Rightarrow> p | Some q \<Rightarrow> collide_y q p)"
proof (induction qs)
  case Nil
  then show ?case by (simp add: spritecollideany_def)
next
  case (Cons a qs)
  show ?case
  proof (cases "colliderect (p_rect p) (plat_rect a)")
    case True
    then have "fold collide_y qs (collide_y a p) = collide_y a p"
      by (intro fold_collide_y_idle collide_y_stops)
    then show ?thesis using True by (simp add: spritecollideany_def)
  next
    case False
    then have "collide_y a p = p" by (simp add: collide_y_def)
    then show ?thesis using False Cons by (simp add: spritecollideany_def)
  qed
qed

lemma spritecollideany_None:
  "spritecollideany r qs = None \<Longrightarrow> q \<in> set qs \<Longrightarrow> \<not> colliderect r (plat_rect q)"
  by (auto simp: spritecollideany_def find_None_iff)

lemma spritecollideany_Some:
  "spritecollideany r qs = Some q \<Longrightarrow> colliderect r (plat_rect q) \<and> q \<in> set qs"
  by (auto simp: spritecollideany_def find_Some_iff)

lemma apart_x:
  "0 < rect_w a \<Longrightarrow> 0 < rect_w b \<Longrightarrow>
   rect_x a + rect_w a \<le> rect_x b \<or> rect_x b + rect_w b \<le> rect_x a \<Longrightarrow> \<not> colliderect a b"
  by (auto simp: colliderect_def)

lemma apart_y:
  "0 < rect_h a \<Longrightarrow> 0 < rect_h b \<Longrightarrow>
   rect_y a + rect_h a \<le> rect_y b \<or> rect_y b + rect_h b \<le> rect_y a \<Longrightarrow> \<not> colliderect a b"
  by (auto simp: colliderect_def)

lemma collide_x_rect:
  "rect_w (p_rect (collide_x q p)) = rect_w (p_rect p)"
  "rect_h (p_rect (collide_x q p)) = rect_h (p_rect p)"
  "rect_y (p_rect (collide_x q p)) = rect_y (p_rect p)"
  "vel_y (collide_x q p) = vel_y p"
  by (simp_all add: collide_x_def set_right_def set_left_def)

lemma collide_y_rect:
  "rect_w (p_rect (collide_y q p)) = rect_w (p_rect p)"
  "rect_h (p_rect (collide_y q p)) = rect_h (p_rect p)"
  "rect_x (p_rect (collide_y q p)) = rect_x (p_rect p)"
  by (simp_all add: collide_y_def set_bottom_def set_top_def)

lemma move_horizontal_first:
  "move_horizontal qs p
     = (case first_hit_x qs p of
          None \<Rightarrow> p\<lparr>p_rect := move_x (py_int (vel_x p)) (p_rect p)\<rparr>
        | Some q \<Rightarrow> collide_x q (p\<lparr>p_rect := move_x (py_int (vel_x p)) (p_rect p)\<rparr>))"
  by (simp add: move_horizontal_def fold_collide_x_first first_hit_x_def)

lemma move_vertical_first:
  "move_vertical qs p
     = (case first_hit_y qs p of
          None \<Rightarrow> p\<lparr>on_ground := False, p_rect := move_y (py_int (vel_y p)) (p_rect p)\<rparr>
        | Some q \<Rightarrow> collide_y q
            (p\<lparr>on_ground := False, p_rect := move_y (py_int (vel_y p)) (p_rect p)\<rparr>))"
  by (simp add: move_vertical_def fold_collide_y_first first_hit_y_def)

lemma move_horizontal_rect:
  "rect_w (p_rect (move_horizontal qs p)) = rect_w (p_rect p)"
  "rect_h (p_rect (move_horizontal qs p)) = rect_h (p_rect p)"
  "vel_y (move_horizontal qs p) = vel_y p"
  by (simp_all add: move_horizontal_first collide_x_rect move_x_def split: option.splits)

lemma move_vertical_rect:
  "rect_w (p_rect (move_vertical qs p)) = rect_w (p_rect p)"
  "rect_h (p_rect (move_vertical qs p)) = rect_h (p_rect p)"
  "rect_x (p_rect (move_vertical qs p)) = rect_x (p_rect p)"
  by (simp_all add: move_vertical_first collide_y_rect move_y_def split: option.splits)

lemma move_horizontal_snapped:
  assumes "first_hit_x qs p = Some q" "vel_x p \<noteq> 0"
  shows "rect_x (p_rect (move_horizontal qs p)) + rect_w (p_rect p) = rect_x (plat_rect q)
         \<or> rect_x (plat_rect q) + rect_w (plat_rect q) = rect_x (p_rect (move_horizontal qs p))"
proof -
  have "colliderect (move_x (py_int (vel_x p)) (p_rect p)) (plat_rect q)"
    using assms(1) spritecollideany_Some by (simp add: first_hit_x_def)
  then show ?thesis
    using assms
    by (auto simp: move_horizontal_first collide_x_def set_right_def set_left_def rect_left_def
          rect_right_def move_x_def)
qed

lemma move_vertical_snapped:
  assumes "first_hit_y qs p = Some q" "vel_y p \<noteq> 0"
  shows "rect_y (p_rect (move_vertical qs p)) + rect_h (p_rect p) = rect_y (plat_rect q)
         \<or> rect_y (plat_rect q) + rect_h (plat_rect q) = rect_y (p_rect (move_vertical qs p))"
proof -
  have "colliderect (move_y (py_int (vel_y p)) (p_rect p)) (plat_rect q)"
    using assms(1) spritecollideany_Some by (simp add: first_hit_y_def)
  then show ?thesis
    using assms
    by (auto simp: move_vertical_first collide_y_def set_bottom_def set_top_def rect_top_def
          rect_bottom_def move_y_def)
qed

lemma move_vertical_free:
  assumes "first_hit_y qs p = None" "q \<in> set qs"
  shows "\<not> colliderect (p_rect (move_vertical qs p)) (plat_rect q)"
  using spritecollideany_None [OF assms(1) [unfolded first_hit_y_def] assms(2)] assms(1)
  by (simp add: move_vertical_first)

lemma move_horizontal_free:
  assumes "first_hit_x qs p = None" "q \<in> set qs"
  shows "\<not> colliderect (p_rect (move_horizontal qs p)) (plat_rect q)"
  using spritecollideany_None [OF assms(1) [unfolded first_hit_x_def] assms(2)] assms(1)
  by (simp add: move_horizontal_first)

lemmas c5_defs = stair_low_def stair_high_def faller_def wall_def runner_def Player_init_def
  Platform_init_def rect_topleft_def colliderect_def move_x_def move_y_def

lemma py_int_whole: "py_int 0 = 0" "py_int 4 = 4" "py_int 20 = 20"
  by (simp_all add: py_int_def)

lemma faller_first_hit_x: "first_hit_x [stair_low, stair_high] faller = None"
  by (simp add: first_hit_x_def spritecollideany_def py_int_whole c5_defs)

lemma faller_move_horizontal:
  "move_horizontal [stair_low, stair_high] faller = faller"
  unfolding move_horizontal_first faller_first_hit_x
  by (simp add: faller_def Player_init_def py_int_whole move_x_def)

lemma faller_first_hit_y:
  "first_hit_y [stair_low, stair_high] faller = Some stair_low"
  by (simp add: first_hit_y_def spritecollideany_def py_int_whole c5_defs)

lemma faller_lands:
  "p_rect (move_and_collide [stair_low, stair_high] faller) = rect_topleft 30 62 32 48"
  unfolding move_and_collide_def faller_move_horizontal move_vertical_first faller_first_hit_y
  by (simp add: collide_y_def py_int_whole set_bottom_def rect_top_def c5_defs)

lemma sitter_stays:
  "p_rect (move_and_collide [stair_high] (Player_init 10 70)) = rect_topleft 10 70 32 48"
proof -
  have v: "vel_x (Player_init 10 70) = 0" "vel_y (Player_init 10 70) = 0"
    by (simp_all add: Player_init_def)
  have h: "move_horizontal [stair_high] (Player_init 10 70) = Player_init 10 70"
    by (simp add: move_horizontal_def v py_int_whole collide_x_idle Player_init_def move_x_def)
  have m: "move_vertical [stair_high] (Player_init 10 70) = Player_init 10 70"
    by (simp add: move_vertical_def v py_int_whole collide_y_idle Player_init_def move_y_def)
  show ?thesis unfolding move_and_collide_def h m by (simp add: Player_init_def)
qed

lemma runner_first_hit_x: "first_hit_x [wall] runner = Some wall"
  by (simp add: first_hit_x_def spritecollideany_def py_int_whole c5_defs)

lemma runner_move_horizontal:
  "move_horizontal [wall] runner = (Player_init 2 0)"
  unfolding move_horizontal_first runner_first_hit_x
  by (simp add: collide_x_def py_int_whole set_right_def rect_left_def c5_defs)

lemma runner_first_hit_y: "first_hit_y [wall] (move_horizontal [wall] runner) = None"
  unfolding runner_move_horizontal
  by (simp add: first_hit_y_def spritecollideany_def py_int_whole c5_defs)

text \<open>
  C5 as the spec states it: after \<open>move_and_collide\<close> the player's rectangle overlaps no
  platform of the list, for every player state and every list. Two platforms that form a
  step refute it: the falling player (vertical velocity 20, overlapping nothing before
  the move) is snapped onto the lower platform, which comes first in the list, and then
  overlaps the higher one, which is no longer resolved. A player at rest (both velocities
  0) that overlaps a platform is not moved at all.
\<close>

theorem move_and_collide_overlap_counterexample:
  "positive_size (p_rect faller) \<and> positive_size (plat_rect stair_low)
   \<and> positive_size (plat_rect stair_high) \<and> vel_y faller = 20
   \<and> \<not> colliderect (p_rect faller) (plat_rect stair_low)
   \<and> \<not> colliderect (p_rect faller) (plat_rect stair_high)
   \<and> p_rect (move_and_collide [stair_low, stair_high] faller) = rect_topleft 30 62 32 48
   \<and> colliderect (p_rect (move_and_collide [stair_low, stair_high] faller)) (plat_rect stair_high)
   \<and> vel_x (Player_init 10 70) = 0 \<and> vel_y (Player_init 10 70) = 0
   \<and> colliderect (p_rect (move_and_collide [stair_high] (Player_init 10 70)))
        (plat_rect stair_high)"
  unfolding faller_lands sitter_stays
  by (simp add: positive_size_def c5_defs)

text \<open>
  C5, amended: for every player state and every list of platforms, each axis of
  \<open>move_and_collide\<close> is resolved against one platform only, the first in list order that
  the moved rectangle collides with. When the velocity on that axis is not 0 and both
  rectangles have positive size, the player's rectangle after \<open>move_and_collide\<close> does not
  overlap that platform. When no platform collides in a pass, the rectangle after that pass
  overlaps no platform of the list. Nothing is promised about the other platforms after a
  snap, nor about a pass with velocity 0.
\<close>

theorem move_and_collide_first_hit:
  "(first_hit_x platforms p = None \<longrightarrow>
      (\<forall>q' \<in> set platforms. \<not> colliderect (p_rect (move_horizontal platforms p)) (plat_rect q')))
   \<and> (first_hit_x platforms p = Some q \<and> vel_x p \<noteq> 0
        \<and> positive_size (p_rect p) \<and> positive_size (plat_rect q) \<longrightarrow>
      \<not> colliderect (p_rect (move_horizontal platforms p)) (plat_rect q)
      \<and> \<not> colliderect (p_rect (move_and_collide platforms p)) (plat_rect q))
   \<and> (first_hit_y platforms (move_horizontal platforms p) = Some q \<and> vel_y p \<noteq> 0
        \<and> positive_size (p_rect p) \<and> positive_size (plat_rect q) \<longrightarrow>
      \<not> colliderect (p_rect (move_and_collide platforms p)) (plat_rect q))
   \<and> (first_hit_y platforms (move_horizontal platforms p) = None \<longrightarrow>
      (\<forall>q' \<in> set platforms. \<not> colliderect (p_rect (move_and_collide platforms p)) (plat_rect q')))"
proof (intro conjI impI ballI)
  fix q' assume "first_hit_x platforms p = None" "q' \<in> set platforms"
  then show "\<not> colliderect (p_rect (move_horizontal platforms p)) (plat_rect q')"
    by (rule move_horizontal_free)
next
  assume a: "first_hit_x platforms p = Some q \<and> vel_x p \<noteq> 0
             \<and> positive_size (p_rect p) \<and> positive_size (plat_rect q)"
  then have s: "rect_x (p_rect (move_horizontal platforms p)) + rect_w (p_rect p)
                  = rect_x (plat_rect q)
                \<or> rect_x (plat_rect q) + rect_w (plat_rect q)
                  = rect_x (p_rect (move_horizontal platforms p))"
    by (simp add: move_horizontal_snapped)
  show "\<not> colliderect (p_rect (move_horizontal platforms p)) (plat_rect q)"
    using a s by (intro apart_x) (auto simp: positive_size_def move_horizontal_rect)
  show "\<not> colliderect (p_rect (move_and_collide platforms p)) (plat_rect q)"
    using a s unfolding move_and_collide_def
    by (intro apart_x) (auto simp: positive_size_def move_horizontal_rect move_vertical_rect)
next
  assume a: "first_hit_y platforms (move_horizontal platforms p) = Some q \<and> vel_y p \<noteq> 0
             \<and> positive_size (p_rect p) \<and> positive_size (plat_rect q)"
  then have "rect_y (p_rect (move_vertical platforms (move_horizontal platforms p)))
                  + rect_h (p_rect (move_horizontal platforms p)) = rect_y (plat_rect q)
             \<or> rect_y (plat_rect q) + rect_h (plat_rect q)
                  = rect_y (p_rect (move_vertical platforms (move_horizontal platforms p)))"
    by (intro move_vertical_snapped) (simp_all add: move_horizontal_rect)
  then show "\<not> colliderect (p_rect (move_and_collide platforms p)) (plat_rect q)"
    using a unfolding move_and_collide_def
    by (intro apart_y) (auto simp: positive_size_def move_horizontal_rect move_vertical_rect)
next
  fix q' assume "first_hit_y platforms (move_horizontal platforms p) = None" "q' \<in> set platforms"
  then show "\<not> colliderect (p_rect (move_and_collide platforms p)) (plat_rect q')"
    unfolding move_and_collide_def by (rule move_vertical_free)
qed

theorem move_and_collide_first_hit_witness:
  "first_hit_x [stair_low, stair_high] faller = None
   \<and> \<not> colliderect (p_rect (move_horizontal [stair_low, stair_high] faller)) (plat_rect stair_low)
   \<and> first_hit_x [wall] runner = Some wall \<and> vel_x runner \<noteq> 0
   \<and> positive_size (p_rect runner) \<and> positive_size (plat_rect wall)
   \<and> \<not> colliderect (p_rect (move_and_collide [wall] runner)) (plat_rect wall)
   \<and> first_hit_y [stair_low, stair_high] (move_horizontal [stair_low, stair_high] faller)
       = Some stair_low
   \<and> vel_y faller \<noteq> 0 \<and> positive_size (p_rect faller) \<and> positive_size (plat_rect stair_low)
   \<and> \<not> colliderect (p_rect (move_and_collide [stair_low, stair_high] faller))
         (plat_rect stair_low)
   \<and> first_hit_y [wall] (move_horizontal [wall] runner) = None"
proof -
  have sizes: "positive_size (p_rect runner)" "positive_size (plat_rect wall)"
    "positive_size (p_rect faller)" "positive_size (plat_rect stair_low)"
    "vel_x runner \<noteq> 0" "vel_y faller \<noteq> 0"
    by (simp_all add: positive_size_def c5_defs)
  have fy: "first_hit_y [stair_low, stair_high] (move_horizontal [stair_low, stair_high] faller)
              = Some stair_low"
    unfolding faller_move_horizontal by (rule faller_first_hit_y)
  show ?thesis
    using sizes fy faller_first_hit_x runner_first_hit_x runner_first_hit_y
      move_and_collide_first_hit [where platforms = "[stair_low, stair_high]" and p = faller
        and q = stair_low]
      move_and_collide_first_hit [where platforms = "[wall]" and p = runner and q = wall]
    by simp
qed

end
